theory Spec2Isabelle
  imports Main "HOL-Library.Char_ord" "HOL-Library.List_Lexorder" "HOL-Library.Product_Lexorder"
begin

section \<open>Documents, schemas and filters\<close>

text \<open>
  The embedding follows \<^verbatim>\<open>reference-query.service.ts\<close> (class
  \<^verbatim>\<open>ReferenceQueryService\<close>). Ids and field values are \<^verbatim>\<open>string | number\<close>
  in the source; a field of a document holds nothing, one value, or an array of values.
\<close>

datatype scalar = Str string | Num int

datatype val = VUndefined | VOne scalar | VMany "scalar list"

record document =
  doc_id :: scalar
  doc_fields :: "(string \<times> val) list"

text \<open>\<^verbatim>\<open>entity[name]\<close>: the id under \<^verbatim>\<open>_id\<close>, \<^verbatim>\<open>undefined\<close> for a missing field.\<close>

definition getf :: "document \<Rightarrow> string \<Rightarrow> val" where
  "getf d name =
     (if name = ''_id'' then VOne (doc_id d)
      else (case map_of (doc_fields d) name of None \<Rightarrow> VUndefined | Some v \<Rightarrow> v))"

text \<open>
  The type guards of \<^verbatim>\<open>typegoose-types.helper\<close> are not among the sources; a schema type
  carries what they test. \<^verbatim>\<open>isEmbeddedSchemaTypeOptions\<close> holds when
  \<^verbatim>\<open>$embeddedSchemaType.options.ref\<close> is there (an array of references),
  \<^verbatim>\<open>isSchemaTypeWithReferenceOptions\<close> when \<^verbatim>\<open>options.ref\<close> is (one reference), and
  \<^verbatim>\<open>isVirtualTypeWithReferenceOptions\<close> when a virtual type has the options \<^verbatim>\<open>ref\<close>,
  \<^verbatim>\<open>foreignField\<close> and \<^verbatim>\<open>localField\<close>.
\<close>

record schema_type =
  embedded_ref :: "string option"
  options_ref :: "string option"

record virtual_options =
  vref :: string
  foreignField :: string
  localField :: string
  justOne :: bool

record virtual_type =
  voptions :: "virtual_options option"

text \<open>
  The service: \<^verbatim>\<open>this.Model\<close> with its name and its schema
  (\<^verbatim>\<open>schema.path\<close>, \<^verbatim>\<open>schema.virtualpath\<close>).
\<close>

record service =
  modelName :: string
  schema_paths :: "(string \<times> schema_type) list"
  schema_virtuals :: "(string \<times> virtual_type) list"

definition schema_path :: "service \<Rightarrow> string \<Rightarrow> schema_type option" where
  "schema_path svc refName = map_of (schema_paths svc) refName"

definition schema_virtualpath :: "service \<Rightarrow> string \<Rightarrow> virtual_type option" where
  "schema_virtualpath svc refName = map_of (schema_virtuals svc) refName"

text \<open>The faults of the service, one constructor for each message the source builds.\<close>

datatype error =
    UnableToFindReference string string
      \<comment> \<open>\<^verbatim>\<open>Error: Unable to find reference ${refName} on ${modelName}\<close>\<close>
  | NotSupportedForVirtual string string
      \<comment> \<open>\<^verbatim>\<open>Error: ${operation} not supported for virtual relation ${refName}\<close>\<close>
  | UnableToLookupReferenceType string
      \<comment> \<open>\<^verbatim>\<open>Error: Unable to lookup reference type for ${refName}\<close>\<close>
  | UnableToFindAllToAdd string string
      \<comment> \<open>\<^verbatim>\<open>Error: Unable to find all ${relationName} to add to ${modelName}\<close>\<close>
  | UnableToFindToSet string string
      \<comment> \<open>\<^verbatim>\<open>Error: Unable to find ${relationName} to set on ${modelName}\<close>\<close>
  | UnableToFindToRemove string string
      \<comment> \<open>\<^verbatim>\<open>Error: Unable to find ${relationName} to remove from ${modelName}\<close>\<close>
  | UnableToFindAllToRemove string string
      \<comment> \<open>\<^verbatim>\<open>Error: Unable to find all ${relationName} to remove from ${modelName}\<close>\<close>
  | NotFoundException string scalar
      \<comment> \<open>\<^verbatim>\<open>NotFoundException: Unable to find ${modelName} with id: ${id}\<close>\<close>
  | MongoError string
      \<comment> \<open>an update the store rejects\<close>

text \<open>
  The filter grammar of the callers (\<^verbatim>\<open>Filter\<close>): comparisons of a field, combined with
  \<^verbatim>\<open>and\<close> / \<^verbatim>\<open>or\<close>; \<open>FEmpty\<close> is the object \<^verbatim>\<open>{}\<close>. The service itself builds
  \<^verbatim>\<open>eq\<close> and \<^verbatim>\<open>in\<close> comparisons.
\<close>

datatype cmp = CEq val | CNeq val | CIn "scalar list" | CNotIn "scalar list"

datatype filter = FEmpty | FField string cmp | FAnd "filter list" | FOr "filter list"

text \<open>How the store evaluates a comparison on a field value (an array field matches through its elements).\<close>

definition eq_holds :: "val \<Rightarrow> val \<Rightarrow> bool" where
  "eq_holds v x =
     (x = v \<or> (case x of VMany xs \<Rightarrow> (case v of VOne a \<Rightarrow> a \<in> set xs | _ \<Rightarrow> False) | _ \<Rightarrow> False))"

definition in_holds :: "scalar list \<Rightarrow> val \<Rightarrow> bool" where
  "in_holds vs x =
     (case x of VUndefined \<Rightarrow> False | VOne a \<Rightarrow> a \<in> set vs | VMany xs \<Rightarrow> list_ex (\<lambda>a. a \<in> set vs) xs)"

fun cmp_holds :: "cmp \<Rightarrow> val \<Rightarrow> bool" where
  "cmp_holds (CEq v) x = eq_holds v x"
| "cmp_holds (CNeq v) x = (\<not> eq_holds v x)"
| "cmp_holds (CIn vs) x = in_holds vs x"
| "cmp_holds (CNotIn vs) x = (\<not> in_holds vs x)"

fun matches :: "filter \<Rightarrow> document \<Rightarrow> bool" where
  "matches FEmpty d = True"
| "matches (FField name c) d = cmp_holds c (getf d name)"
| "matches (FAnd fs) d = list_all (\<lambda>f. matches f d) fs"
| "matches (FOr fs) d = list_ex (\<lambda>f. matches f d) fs"

text \<open>
  Modelled from the spec: \<^verbatim>\<open>mergeFilter\<close> of the core package, which is not among the
  sources; the spec has the Reference Filter "merged (AND-combined) with any caller-supplied
  filter". An empty filter is the unit of the merge.
\<close>

definition mergeFilter :: "filter \<Rightarrow> filter \<Rightarrow> filter" where
  "mergeFilter base source =
     (if base = FEmpty then source else if source = FEmpty then base else FAnd [source, base])"

text \<open>\<^verbatim>\<open>Query<T>\<close>: filter, paging (limit, offset) and sorting (field, ascending).\<close>

record query =
  q_filter :: "filter option"
  q_limit :: "nat option"
  q_offset :: "nat option"
  q_sorting :: "(string \<times> bool) list"

record options =
  o_limit :: "nat option"
  o_skip :: "nat option"
  o_sort :: "(string \<times> bool) list"

definition no_options :: options where
  "no_options = \<lparr>o_limit = None, o_skip = None, o_sort = []\<rparr>"

text \<open>A native query of the store is represented by the documents it matches.\<close>

type_synonym native_query = "document \<Rightarrow> bool"

text \<open>
  Modelled from the spec: \<^verbatim>\<open>FilterQueryBuilder\<close> (\<^verbatim>\<open>../query\<close>), which is not among
  the sources. The spec gives its contract (4.1): \<^verbatim>\<open>buildFilterQuery\<close>,
  \<^verbatim>\<open>buildIdFilterQuery\<close>, \<^verbatim>\<open>buildQuery\<close>, \<^verbatim>\<open>buildAggregateQuery\<close>, each output
  "semantically equivalent under the store's native evaluation"; an absent filter matches
  every document, an id filter adds the constraint on \<^verbatim>\<open>_id\<close> (one id, or an id in a set).
\<close>

definition buildFilterQuery :: "filter option \<Rightarrow> native_query" where
  "buildFilterQuery f = (case f of None \<Rightarrow> (\<lambda>d. True) | Some g \<Rightarrow> matches g)"

definition buildIdFilterQuery :: "val \<Rightarrow> filter option \<Rightarrow> native_query" where
  "buildIdFilterQuery ident f =
     (\<lambda>d. (case ident of VMany ids \<Rightarrow> doc_id d \<in> set ids | v \<Rightarrow> VOne (doc_id d) = v)
          \<and> buildFilterQuery f d)"

definition buildQuery :: "query \<Rightarrow> native_query \<times> options" where
  "buildQuery q =
     (buildFilterQuery (q_filter q),
      \<lparr>o_limit = q_limit q, o_skip = q_offset q, o_sort = q_sorting q\<rparr>)"

datatype agg_func = COUNT | SUM | AVG | MAX | MIN

type_synonym aggregate_query = "(agg_func \<times> string) list"

definition buildAggregateQuery :: "aggregate_query \<Rightarrow> filter \<Rightarrow> native_query \<times> aggregate_query" where
  "buildAggregateQuery aggregate f = (buildFilterQuery (Some f), aggregate)"

section \<open>The store\<close>

text \<open>
  The store holds one collection of documents for each model name. \<open>trace\<close> records the
  calls made to the store, oldest first, each with the model it goes to. The calls are
  those the service makes on a mongoose \<^verbatim>\<open>Model\<close> (\<^verbatim>\<open>findById\<close>, \<^verbatim>\<open>count\<close>,
  \<^verbatim>\<open>aggregate\<close>, \<^verbatim>\<open>findOneAndUpdate\<close>, \<^verbatim>\<open>populate\<close>); ids and values are compared
  as they are, without casting.
\<close>

datatype store_op =
    OpFindById string
  | OpFindOne string
  | OpPopulate string
  | OpCount string
  | OpAggregate string
  | OpFindOneAndUpdate string

record state =
  colls :: "string \<Rightarrow> document list"
  trace :: "store_op list"

definition called :: "store_op \<Rightarrow> state \<Rightarrow> state" where
  "called op s = s\<lparr>trace := trace s @ [op]\<rparr>"

text \<open>\<^verbatim>\<open>Model.findById(id)\<close>: the document or null.\<close>

definition findById :: "string \<Rightarrow> scalar \<Rightarrow> state \<Rightarrow> document option \<times> state" where
  "findById M i s = (find (\<lambda>d. doc_id d = i) (colls s M), called (OpFindById M) s)"

text \<open>\<^verbatim>\<open>Model.count(query).exec()\<close>.\<close>

definition countDocs :: "string \<Rightarrow> native_query \<Rightarrow> state \<Rightarrow> nat \<times> state" where
  "countDocs M q s = (length (filter q (colls s M)), called (OpCount M) s)"

text \<open>
  \<^verbatim>\<open>Model.aggregate([{$match: q}, {$group: {_id: null, ...aggregate}}]).exec()\<close>: one
  row for the single group when a document matches, no row otherwise. The accumulators of
  the store are the parameter \<open>grp\<close>.
\<close>

definition aggregateExec ::
  "(aggregate_query \<Rightarrow> document list \<Rightarrow> 'row) \<Rightarrow> string \<Rightarrow> native_query \<Rightarrow> aggregate_query
     \<Rightarrow> state \<Rightarrow> 'row list \<times> state" where
  "aggregateExec grp M q aggregate s =
     ((case filter q (colls s M) of [] \<Rightarrow> [] | d # ds \<Rightarrow> [grp aggregate (d # ds)]),
      called (OpAggregate M) s)"

text \<open>The order of the store on field values, and its sort on a list of (field, ascending) keys.\<close>

fun val_key :: "val \<Rightarrow> nat \<times> int \<times> string" where
  "val_key VUndefined = (0, 0, [])"
| "val_key (VOne (Num n)) = (1, n, [])"
| "val_key (VOne (Str s)) = (2, 0, s)"
| "val_key (VMany xs) = (3, 0, [])"

definition sort_docs :: "(string \<times> bool) list \<Rightarrow> document list \<Rightarrow> document list" where
  "sort_docs keys ds =
     foldr (\<lambda>(name, asc) acc.
              if asc then sort_key (\<lambda>d. val_key (getf d name)) acc
              else rev (sort_key (\<lambda>d. val_key (getf d name)) (rev acc)))
           keys ds"

text \<open>\<^verbatim>\<open>find(query)\<close> with sort, skip and limit (a limit of 0 is no limit).\<close>

definition find_docs :: "state \<Rightarrow> string \<Rightarrow> native_query \<Rightarrow> options \<Rightarrow> document list" where
  "find_docs s M q opts =
     (let sorted = sort_docs (o_sort opts) (filter q (colls s M));
          skipped = (case o_skip opts of None \<Rightarrow> sorted | Some k \<Rightarrow> drop k sorted)
      in (case o_limit opts of
            None \<Rightarrow> skipped
          | Some n \<Rightarrow> if n = 0 then skipped else take n skipped))"

text \<open>Updates of one document, as \<^verbatim>\<open>findOneAndUpdate\<close> receives them.\<close>

datatype update =
    Push string "scalar list"     \<comment> \<open>\<^verbatim>\<open>{ $push: { [name]: { $each: ids } } }\<close>\<close>
  | SetField string scalar        \<comment> \<open>\<^verbatim>\<open>{ [name]: id }\<close>\<close>
  | Unset string                  \<comment> \<open>\<^verbatim>\<open>{ $unset: { [name]: id } }\<close>\<close>
  | PullAll string "scalar list"  \<comment> \<open>\<^verbatim>\<open>{ $pullAll: { [name]: ids } }\<close>\<close>

fun put :: "string \<Rightarrow> val \<Rightarrow> (string \<times> val) list \<Rightarrow> (string \<times> val) list" where
  "put k v [] = [(k, v)]"
| "put k v ((k', v') # rest) = (if k' = k then (k, v) # rest else (k', v') # put k v rest)"

definition update_name :: "update \<Rightarrow> string" where
  "update_name u =
     (case u of Push n ids \<Rightarrow> n | SetField n i \<Rightarrow> n | Unset n \<Rightarrow> n | PullAll n ids \<Rightarrow> n)"

text \<open>
  The store rejects an update of \<^verbatim>\<open>_id\<close>, and \<^verbatim>\<open>$push\<close> / \<^verbatim>\<open>$pullAll\<close> on a field
  that holds a value which is not an array.
\<close>

definition apply_update :: "update \<Rightarrow> document \<Rightarrow> error + document" where
  "apply_update u d =
     (if update_name u = ''_id'' then Inl (MongoError ''immutable field _id'')
      else (case u of
          Push n ids \<Rightarrow>
            (case getf d n of
               VUndefined \<Rightarrow> Inr (d\<lparr>doc_fields := put n (VMany ids) (doc_fields d)\<rparr>)
             | VMany xs \<Rightarrow> Inr (d\<lparr>doc_fields := put n (VMany (xs @ ids)) (doc_fields d)\<rparr>)
             | VOne x \<Rightarrow> Inl (MongoError ''field must be an array''))
        | SetField n i \<Rightarrow> Inr (d\<lparr>doc_fields := put n (VOne i) (doc_fields d)\<rparr>)
        | Unset n \<Rightarrow> Inr (d\<lparr>doc_fields := filter (\<lambda>p. fst p \<noteq> n) (doc_fields d)\<rparr>)
        | PullAll n ids \<Rightarrow>
            (case getf d n of
               VUndefined \<Rightarrow> Inr d
             | VMany xs \<Rightarrow> Inr (d\<lparr>doc_fields := put n (VMany (filter (\<lambda>x. x \<notin> set ids) xs)) (doc_fields d)\<rparr>)
             | VOne x \<Rightarrow> Inl (MongoError ''cannot apply $pullAll to a non-array value''))))"

text \<open>The first document the query matches is updated in place; the others are kept.\<close>

fun update_first ::
  "native_query \<Rightarrow> (document \<Rightarrow> error + document) \<Rightarrow> document list
     \<Rightarrow> error + (document option \<times> document list)" where
  "update_first q u [] = Inr (None, [])"
| "update_first q u (d # ds) =
     (if q d then (case u d of Inl e \<Rightarrow> Inl e | Inr d' \<Rightarrow> Inr (Some d', d' # ds))
      else (case update_first q u ds of
              Inl e \<Rightarrow> Inl e
            | Inr (r, ds') \<Rightarrow> Inr (r, d # ds')))"

text \<open>
  \<^verbatim>\<open>Model.findOneAndUpdate(query, update, { new: true }).exec()\<close>: the updated document,
  or null when no document matches.
\<close>

definition findOneAndUpdate ::
  "string \<Rightarrow> native_query \<Rightarrow> update \<Rightarrow> state \<Rightarrow> (error + document option) \<times> state" where
  "findOneAndUpdate M q u s =
     (case update_first q (apply_update u) (colls s M) of
        Inl e \<Rightarrow> (Inl e, called (OpFindOneAndUpdate M) s)
      | Inr (r, ds') \<Rightarrow> (Inr r, called (OpFindOneAndUpdate M) (s\<lparr>colls := (colls s)(M := ds')\<rparr>)))"

text \<open>
  What \<^verbatim>\<open>populated.get(path)\<close> holds after
  \<^verbatim>\<open>doc.populate({ path, match, options }).execPopulate()\<close>: the raw value of a path that
  is not populated, null, one related document, or an array of related documents.
\<close>

datatype pval = PRaw val | PNull | POne document | PMany "document list"

abbreviation PUndefined :: pval where
  "PUndefined \<equiv> PRaw VUndefined"

text \<open>Truthiness, for \<^verbatim>\<open>convertedRef || undefined\<close>.\<close>

fun truthy :: "pval \<Rightarrow> bool" where
  "truthy (PRaw VUndefined) = False"
| "truthy (PRaw (VOne (Num n))) = (n \<noteq> 0)"
| "truthy (PRaw (VOne (Str s))) = (s \<noteq> [])"
| "truthy (PRaw (VMany xs)) = True"
| "truthy PNull = False"
| "truthy (POne d) = True"
| "truthy (PMany ds) = True"

text \<open>Without a sort option the populated array follows the order of the ids in the field.\<close>

definition assign_ids :: "scalar list \<Rightarrow> document list \<Rightarrow> document list" where
  "assign_ids ids ds = concat (map (\<lambda>i. filter (\<lambda>d. doc_id d = i) ds) ids)"

definition populate ::
  "service \<Rightarrow> document \<Rightarrow> string \<Rightarrow> native_query \<Rightarrow> options \<Rightarrow> state \<Rightarrow> pval \<times> state" where
  "populate svc doc path match opts s =
     (case schema_path svc path of
        Some t \<Rightarrow>
          (case (case embedded_ref t of Some r \<Rightarrow> Some r | None \<Rightarrow> options_ref t) of
             None \<Rightarrow> (PRaw (getf doc path), s)
           | Some M \<Rightarrow>
               (case getf doc path of
                  VUndefined \<Rightarrow> (PUndefined, s)
                | VOne i \<Rightarrow>
                    ((case find_docs s M (\<lambda>d. doc_id d = i \<and> match d) opts of
                        [] \<Rightarrow> PNull
                      | d # ds \<Rightarrow> POne d),
                     called (OpPopulate M) s)
                | VMany ids \<Rightarrow>
                    (PMany (if o_sort opts = []
                            then assign_ids ids (find_docs s M (\<lambda>d. doc_id d \<in> set ids \<and> match d) opts)
                            else find_docs s M (\<lambda>d. doc_id d \<in> set ids \<and> match d) opts),
                     called (OpPopulate M) s)))
      | None \<Rightarrow>
          (case schema_virtualpath svc path of
             None \<Rightarrow> (PUndefined, s)
           | Some vt \<Rightarrow>
               (case voptions vt of
                  None \<Rightarrow> (PUndefined, s)
                | Some vo \<Rightarrow>
                    (case find_docs s (vref vo)
                            (\<lambda>d. (case getf doc (localField vo) of
                                     VMany vs \<Rightarrow> in_holds vs (getf d (foreignField vo))
                                   | v \<Rightarrow> eq_holds v (getf d (foreignField vo)))
                                 \<and> match d) opts of
                       found \<Rightarrow>
                         ((if justOne vo
                           then (case found of [] \<Rightarrow> PNull | d # ds \<Rightarrow> POne d)
                           else PMany found),
                          called (OpPopulate (vref vo)) s)))))"

section \<open>Collaborators\<close>

text \<open>
  The assembler that \<^verbatim>\<open>AssemblerFactory.getAssembler(RelationClass, ...)\<close> returns, and the
  aggregation of the store with \<^verbatim>\<open>AggregateBuilder.convertToAggregateResponse\<close>, are
  parameters: their code is not among the sources.
\<close>

record assembler =
  convertQuery :: "query \<Rightarrow> query"
  convertAggregateQuery :: "aggregate_query \<Rightarrow> aggregate_query"
  convertToDTO :: "pval \<Rightarrow> pval"

record 'n agg_env =
  group_stage :: "aggregate_query \<Rightarrow> document list \<Rightarrow> (string \<times> 'n) list"
  convertToAggregateResponse :: "(string \<times> 'n) list \<Rightarrow> (agg_func \<times> (string \<times> 'n) list) list"

definition filter_only :: "filter option \<Rightarrow> query" where
  "filter_only f = \<lparr>q_filter = f, q_limit = None, q_offset = None, q_sorting = []\<rparr>"

text \<open>\<^verbatim>\<open>ModifyRelationOptions\<close>; absent options are the record with both filters absent.\<close>

record modify_relation_options =
  mro_filter :: "filter option"
  relationFilter :: "filter option"

text \<open>
  Modelled from the spec: \<^verbatim>\<open>getById\<close> is abstract in this class and its implementation
  is not among the sources. The spec has remove "reload the entity fresh from the primary
  collection", a fetch by id that fails with "not found" when the entity is absent.
\<close>

definition getById :: "service \<Rightarrow> scalar \<Rightarrow> state \<Rightarrow> (error + document) \<times> state" where
  "getById svc i s =
     (case find (\<lambda>d. doc_id d = i) (colls s (modelName svc)) of
        None \<Rightarrow> (Inl (NotFoundException (modelName svc) i), called (OpFindOne (modelName svc)) s)
      | Some d \<Rightarrow> (Inr d, called (OpFindOne (modelName svc)) s))"

section \<open>Resolution of a relation name\<close>

text \<open>
  \<^verbatim>\<open>getReferenceQueryBuilder\<close> only makes a new \<^verbatim>\<open>FilterQueryBuilder\<close>, which holds no
  state: the builder functions above stand for every instance. \<^verbatim>\<open>updateOne\<close> is abstract
  and is not called in this class.
\<close>

definition isReferencePath :: "service \<Rightarrow> string \<Rightarrow> bool" where
  "isReferencePath svc refName = (schema_path svc refName \<noteq> None)"

definition isVirtualPath :: "service \<Rightarrow> string \<Rightarrow> bool" where
  "isVirtualPath svc refName = (schema_virtualpath svc refName \<noteq> None)"

definition checkForReference :: "service \<Rightarrow> string \<Rightarrow> string \<Rightarrow> bool \<Rightarrow> error + unit" where
  "checkForReference svc operation refName allowVirtual =
     (if isReferencePath svc refName then Inr ()
      else if isVirtualPath svc refName then
        (if allowVirtual then Inr ()
         else Inl (NotSupportedForVirtual operation refName))
      else Inl (UnableToFindReference refName (modelName svc)))"

text \<open>
  \<^verbatim>\<open>getReferenceModel\<close>: the model is named by the schema type
  (\<^verbatim>\<open>getModelWithString(ref)\<close>); the two guards on a schema type are tried in the order of
  the source. A \<open>case\<close> on the schema lookup is the test \<^verbatim>\<open>isReferencePath\<close> /
  \<^verbatim>\<open>isVirtualPath\<close> together with the lookup that follows it.
\<close>

definition getReferenceModel :: "service \<Rightarrow> string \<Rightarrow> error + string" where
  "getReferenceModel svc refName =
     (case schema_path svc refName of
        Some schemaType \<Rightarrow>
          (case embedded_ref schemaType of
             Some r \<Rightarrow> Inr r
           | None \<Rightarrow>
               (case options_ref schemaType of
                  Some r \<Rightarrow> Inr r
                | None \<Rightarrow> Inl (UnableToLookupReferenceType refName)))
      | None \<Rightarrow>
          (case schema_virtualpath svc refName of
             Some virtualType \<Rightarrow>
               (case voptions virtualType of
                  Some vo \<Rightarrow> Inr (vref vo)
                | None \<Rightarrow> Inl (UnableToLookupReferenceType refName))
           | None \<Rightarrow> Inl (UnableToLookupReferenceType refName)))"

definition getObjectIdReferenceFilter :: "string \<Rightarrow> document \<Rightarrow> filter option \<Rightarrow> filter" where
  "getObjectIdReferenceFilter refName entity f =
     (case getf entity refName of
        referenceIds \<Rightarrow>
          mergeFilter (case f of None \<Rightarrow> FEmpty | Some g \<Rightarrow> g)
            (FField ''_id'' (case referenceIds of VMany ids \<Rightarrow> CIn ids | v \<Rightarrow> CEq v)))"

definition getVirtualReferenceFilter :: "virtual_options \<Rightarrow> document \<Rightarrow> filter option \<Rightarrow> filter" where
  "getVirtualReferenceFilter vo entity f =
     (case getf entity (localField vo) of
        refVal \<Rightarrow>
          mergeFilter (case f of None \<Rightarrow> FEmpty | Some g \<Rightarrow> g)
            (FField (foreignField vo) (case refVal of VMany vs \<Rightarrow> CIn vs | v \<Rightarrow> CEq v)))"

text \<open>\<^verbatim>\<open>getReferenceFilter\<close>: \<open>Inr None\<close> is the result \<^verbatim>\<open>undefined\<close>.\<close>

definition getReferenceFilter :: "service \<Rightarrow> string \<Rightarrow> document \<Rightarrow> filter option \<Rightarrow> error + filter option" where
  "getReferenceFilter svc refName entity f =
     (if isReferencePath svc refName then Inr (Some (getObjectIdReferenceFilter refName entity f))
      else (case schema_virtualpath svc refName of
              Some virtualType \<Rightarrow>
                (case voptions virtualType of
                   Some vo \<Rightarrow> Inr (Some (getVirtualReferenceFilter vo entity f))
                 | None \<Rightarrow> Inl (UnableToLookupReferenceType refName))
            | None \<Rightarrow> Inr None))"

definition getRefCount ::
  "service \<Rightarrow> string \<Rightarrow> scalar list \<Rightarrow> filter option \<Rightarrow> state \<Rightarrow> (error + nat) \<times> state" where
  "getRefCount svc relationName relationIds f s =
     (case getReferenceModel svc relationName of
        Inl e \<Rightarrow> (Inl e, s)
      | Inr referenceModel \<Rightarrow>
          (case countDocs referenceModel (buildIdFilterQuery (VMany relationIds) f) s of
             (n, s1) \<Rightarrow> (Inr n, s1)))"

definition findAndUpdate ::
  "service \<Rightarrow> scalar \<Rightarrow> filter option \<Rightarrow> update \<Rightarrow> state \<Rightarrow> (error + document) \<times> state" where
  "findAndUpdate svc i f u s =
     (case findOneAndUpdate (modelName svc) (buildIdFilterQuery (VOne i) f) u s of
        (Inl e, s1) \<Rightarrow> (Inl e, s1)
      | (Inr None, s1) \<Rightarrow> (Inl (NotFoundException (modelName svc) i), s1)
      | (Inr (Some entity), s1) \<Rightarrow> (Inr entity, s1))"

section \<open>Read operations\<close>

text \<open>
  An entity handed to the service is an object: its reference and its contents. The
  \<^verbatim>\<open>Map\<close> of a batched call is keyed by the object, so keys are compared by reference;
  \<^verbatim>\<open>map.set\<close> replaces the value of a key that is present and appends a new key.
\<close>

datatype dto = Dto (dto_ref: nat) (dto_doc: document)

datatype dto_arg = One dto | Many "dto list"

datatype 'v relation_result = Single 'v | Mapped "(dto \<times> 'v) list"

fun map_set :: "(dto \<times> 'v) list \<Rightarrow> dto \<Rightarrow> 'v \<Rightarrow> (dto \<times> 'v) list" where
  "map_set [] k v = [(k, v)]"
| "map_set ((k', v') # m) k v =
     (if dto_ref k' = dto_ref k then (k', v) # m else (k', v') # map_set m k v)"

text \<open>
  \<^verbatim>\<open>dto.reduce(async (prev, curr) => { const map = await prev; const r = await op(curr);
  return map.set(curr, r); }, Promise.resolve(new Map()))\<close>: the entities one after the
  other; a rejection ends the batch.
\<close>

fun reduce_map ::
  "(dto \<Rightarrow> state \<Rightarrow> (error + 'v) \<times> state) \<Rightarrow> dto list \<Rightarrow> (dto \<times> 'v) list \<Rightarrow> state
     \<Rightarrow> (error + (dto \<times> 'v) list) \<times> state" where
  "reduce_map f [] m s = (Inr m, s)"
| "reduce_map f (cur # rest) m s =
     (case f cur s of
        (Inl e, s1) \<Rightarrow> (Inl e, s1)
      | (Inr r, s1) \<Rightarrow> reduce_map f rest (map_set m cur r) s1)"

text \<open>\<^verbatim>\<open>findRelation\<close>, the part after the test \<^verbatim>\<open>Array.isArray(dto)\<close>.\<close>

definition findRelation_body ::
  "service \<Rightarrow> assembler \<Rightarrow> string \<Rightarrow> document \<Rightarrow> filter option \<Rightarrow> state \<Rightarrow> (error + pval) \<times> state" where
  "findRelation_body svc asm relationName dto optsFilter s =
     (case findById (modelName svc) (doc_id dto) s of
        (None, s1) \<Rightarrow> (Inr PUndefined, s1)
      | (Some foundEntity, s1) \<Rightarrow>
          (case getReferenceModel svc relationName of
             Inl e \<Rightarrow> (Inl e, s1)
           | Inr ReferenceModel \<Rightarrow>
               (case populate svc foundEntity relationName
                       (buildFilterQuery (q_filter (convertQuery asm (filter_only optsFilter))))
                       no_options s1 of
                  (populatedRef, s2) \<Rightarrow>
                    (case convertToDTO asm populatedRef of
                       convertedRef \<Rightarrow>
                         (Inr (if truthy convertedRef then convertedRef else PUndefined), s2)))))"

text \<open>The call of \<^verbatim>\<open>findRelation\<close> on one entity, as the batched form makes it.\<close>

definition findRelation_single ::
  "service \<Rightarrow> assembler \<Rightarrow> string \<Rightarrow> document \<Rightarrow> filter option \<Rightarrow> state \<Rightarrow> (error + pval) \<times> state" where
  "findRelation_single svc asm relationName dto optsFilter s =
     (case checkForReference svc ''FindRelation'' relationName True of
        Inl e \<Rightarrow> (Inl e, s)
      | Inr u \<Rightarrow> findRelation_body svc asm relationName dto optsFilter s)"

definition findRelation ::
  "service \<Rightarrow> assembler \<Rightarrow> string \<Rightarrow> dto_arg \<Rightarrow> filter option \<Rightarrow> state
     \<Rightarrow> (error + pval relation_result) \<times> state" where
  "findRelation svc asm relationName dto optsFilter s =
     (case checkForReference svc ''FindRelation'' relationName True of
        Inl e \<Rightarrow> (Inl e, s)
      | Inr u \<Rightarrow>
          (case dto of
             Many dtos \<Rightarrow>
               apfst (map_sum id Mapped)
                 (reduce_map (\<lambda>cur. findRelation_single svc asm relationName (dto_doc cur) optsFilter)
                    dtos [] s)
           | One d \<Rightarrow>
               apfst (map_sum id Single)
                 (findRelation_body svc asm relationName (dto_doc d) optsFilter s)))"

definition queryRelations_body ::
  "service \<Rightarrow> assembler \<Rightarrow> string \<Rightarrow> document \<Rightarrow> query \<Rightarrow> state \<Rightarrow> (error + pval) \<times> state" where
  "queryRelations_body svc asm relationName dto q s =
     (case findById (modelName svc) (doc_id dto) s of
        (None, s1) \<Rightarrow> (Inr (PMany []), s1)
      | (Some foundEntity, s1) \<Rightarrow>
          (case buildQuery (convertQuery asm q) of
             (filterQuery, opts) \<Rightarrow>
               (case populate svc foundEntity relationName filterQuery opts s1 of
                  (populatedRef, s2) \<Rightarrow> (Inr populatedRef, s2))))"

definition queryRelations_single ::
  "service \<Rightarrow> assembler \<Rightarrow> string \<Rightarrow> document \<Rightarrow> query \<Rightarrow> state \<Rightarrow> (error + pval) \<times> state" where
  "queryRelations_single svc asm relationName dto q s =
     (case checkForReference svc ''QueryRelations'' relationName True of
        Inl e \<Rightarrow> (Inl e, s)
      | Inr u \<Rightarrow> queryRelations_body svc asm relationName dto q s)"

definition queryRelations ::
  "service \<Rightarrow> assembler \<Rightarrow> string \<Rightarrow> dto_arg \<Rightarrow> query \<Rightarrow> state
     \<Rightarrow> (error + pval relation_result) \<times> state" where
  "queryRelations svc asm relationName dto q s =
     (case checkForReference svc ''QueryRelations'' relationName True of
        Inl e \<Rightarrow> (Inl e, s)
      | Inr u \<Rightarrow>
          (case dto of
             Many dtos \<Rightarrow>
               apfst (map_sum id Mapped)
                 (reduce_map (\<lambda>entity. queryRelations_single svc asm relationName (dto_doc entity) q)
                    dtos [] s)
           | One d \<Rightarrow>
               apfst (map_sum id Single)
                 (queryRelations_body svc asm relationName (dto_doc d) q s)))"

text \<open>
  \<^verbatim>\<open>aggregateRelations\<close>: the relation model is looked up before the test
  \<^verbatim>\<open>Array.isArray(dto)\<close>; \<open>[]\<close> is the response \<^verbatim>\<open>{}\<close>.
\<close>

definition aggregateRelations_body ::
  "service \<Rightarrow> assembler \<Rightarrow> 'n agg_env \<Rightarrow> string \<Rightarrow> string \<Rightarrow> document \<Rightarrow> filter \<Rightarrow> aggregate_query
     \<Rightarrow> state \<Rightarrow> (error + (agg_func \<times> (string \<times> 'n) list) list) \<times> state" where
  "aggregateRelations_body svc asm env relationModel relationName dto f aggregateQuery s =
     (case getReferenceFilter svc relationName dto (q_filter (convertQuery asm (filter_only (Some f)))) of
        Inl e \<Rightarrow> (Inl e, s)
      | Inr None \<Rightarrow> (Inr [], s)
      | Inr (Some refFilter) \<Rightarrow>
          (case buildAggregateQuery (convertAggregateQuery asm aggregateQuery) refFilter of
             (filterQuery, aggregate) \<Rightarrow>
               (case aggregateExec (group_stage env) relationModel filterQuery aggregate s of
                  ([], s1) \<Rightarrow> (Inr [], s1)
                | (aggResult # rest, s1) \<Rightarrow> (Inr (convertToAggregateResponse env aggResult), s1))))"

definition aggregateRelations_single ::
  "service \<Rightarrow> assembler \<Rightarrow> 'n agg_env \<Rightarrow> string \<Rightarrow> document \<Rightarrow> filter \<Rightarrow> aggregate_query
     \<Rightarrow> state \<Rightarrow> (error + (agg_func \<times> (string \<times> 'n) list) list) \<times> state" where
  "aggregateRelations_single svc asm env relationName dto f aggregateQuery s =
     (case checkForReference svc ''AggregateRelations'' relationName True of
        Inl e \<Rightarrow> (Inl e, s)
      | Inr u \<Rightarrow>
          (case getReferenceModel svc relationName of
             Inl e \<Rightarrow> (Inl e, s)
           | Inr relationModel \<Rightarrow>
               aggregateRelations_body svc asm env relationModel relationName dto f aggregateQuery s))"

definition aggregateRelations ::
  "service \<Rightarrow> assembler \<Rightarrow> 'n agg_env \<Rightarrow> string \<Rightarrow> dto_arg \<Rightarrow> filter \<Rightarrow> aggregate_query
     \<Rightarrow> state \<Rightarrow> (error + (agg_func \<times> (string \<times> 'n) list) list relation_result) \<times> state" where
  "aggregateRelations svc asm env relationName dto f aggregateQuery s =
     (case checkForReference svc ''AggregateRelations'' relationName True of
        Inl e \<Rightarrow> (Inl e, s)
      | Inr u \<Rightarrow>
          (case getReferenceModel svc relationName of
             Inl e \<Rightarrow> (Inl e, s)
           | Inr relationModel \<Rightarrow>
               (case dto of
                  Many dtos \<Rightarrow>
                    apfst (map_sum id Mapped)
                      (reduce_map
                         (\<lambda>entity. aggregateRelations_single svc asm env relationName (dto_doc entity) f
                                     aggregateQuery)
                         dtos [] s)
                | One d \<Rightarrow>
                    apfst (map_sum id Single)
                      (aggregateRelations_body svc asm env relationModel relationName (dto_doc d) f
                         aggregateQuery s))))"

definition countRelations_body ::
  "service \<Rightarrow> assembler \<Rightarrow> string \<Rightarrow> document \<Rightarrow> filter \<Rightarrow> state \<Rightarrow> (error + nat) \<times> state" where
  "countRelations_body svc asm relationName dto f s =
     (case getReferenceModel svc relationName of
        Inl e \<Rightarrow> (Inl e, s)
      | Inr relationModel \<Rightarrow>
          (case getReferenceFilter svc relationName dto
                  (q_filter (convertQuery asm (filter_only (Some f)))) of
             Inl e \<Rightarrow> (Inl e, s)
           | Inr None \<Rightarrow> (Inr 0, s)
           | Inr (Some refFilter) \<Rightarrow>
               (case countDocs relationModel (buildFilterQuery (Some refFilter)) s of
                  (n, s1) \<Rightarrow> (Inr n, s1))))"

definition countRelations_single ::
  "service \<Rightarrow> assembler \<Rightarrow> string \<Rightarrow> document \<Rightarrow> filter \<Rightarrow> state \<Rightarrow> (error + nat) \<times> state" where
  "countRelations_single svc asm relationName dto f s =
     (case checkForReference svc ''CountRelations'' relationName True of
        Inl e \<Rightarrow> (Inl e, s)
      | Inr u \<Rightarrow> countRelations_body svc asm relationName dto f s)"

definition countRelations ::
  "service \<Rightarrow> assembler \<Rightarrow> string \<Rightarrow> dto_arg \<Rightarrow> filter \<Rightarrow> state
     \<Rightarrow> (error + nat relation_result) \<times> state" where
  "countRelations svc asm relationName dto f s =
     (case checkForReference svc ''CountRelations'' relationName True of
        Inl e \<Rightarrow> (Inl e, s)
      | Inr u \<Rightarrow>
          (case dto of
             Many dtos \<Rightarrow>
               apfst (map_sum id Mapped)
                 (reduce_map (\<lambda>entity. countRelations_single svc asm relationName (dto_doc entity) f)
                    dtos [] s)
           | One d \<Rightarrow>
               apfst (map_sum id Single)
                 (countRelations_body svc asm relationName (dto_doc d) f s)))"

section \<open>Mutation operations\<close>

definition addRelations ::
  "service \<Rightarrow> string \<Rightarrow> scalar \<Rightarrow> scalar list \<Rightarrow> modify_relation_options \<Rightarrow> state
     \<Rightarrow> (error + document) \<times> state" where
  "addRelations svc relationName i relationIds opts s =
     (case checkForReference svc ''AddRelations'' relationName False of
        Inl e \<Rightarrow> (Inl e, s)
      | Inr u \<Rightarrow>
          (case getRefCount svc relationName relationIds (relationFilter opts) s of
             (Inl e, s1) \<Rightarrow> (Inl e, s1)
           | (Inr refCount, s1) \<Rightarrow>
               if length relationIds \<noteq> refCount
               then (Inl (UnableToFindAllToAdd relationName (modelName svc)), s1)
               else findAndUpdate svc i (mro_filter opts) (Push relationName relationIds) s1))"

definition setRelation ::
  "service \<Rightarrow> string \<Rightarrow> scalar \<Rightarrow> scalar \<Rightarrow> modify_relation_options \<Rightarrow> state
     \<Rightarrow> (error + document) \<times> state" where
  "setRelation svc relationName i relationId opts s =
     (case checkForReference svc ''SetRelation'' relationName False of
        Inl e \<Rightarrow> (Inl e, s)
      | Inr u \<Rightarrow>
          (case getRefCount svc relationName [relationId] (relationFilter opts) s of
             (Inl e, s1) \<Rightarrow> (Inl e, s1)
           | (Inr refCount, s1) \<Rightarrow>
               if refCount \<noteq> 1
               then (Inl (UnableToFindToSet relationName (modelName svc)), s1)
               else findAndUpdate svc i (mro_filter opts) (SetField relationName relationId) s1))"

definition removeRelation ::
  "service \<Rightarrow> string \<Rightarrow> scalar \<Rightarrow> scalar \<Rightarrow> modify_relation_options \<Rightarrow> state
     \<Rightarrow> (error + document) \<times> state" where
  "removeRelation svc relationName i relationId opts s =
     (case checkForReference svc ''RemoveRelation'' relationName False of
        Inl e \<Rightarrow> (Inl e, s)
      | Inr u \<Rightarrow>
          (case getRefCount svc relationName [relationId] (relationFilter opts) s of
             (Inl e, s1) \<Rightarrow> (Inl e, s1)
           | (Inr refCount, s1) \<Rightarrow>
               if refCount \<noteq> 1
               then (Inl (UnableToFindToRemove relationName (modelName svc)), s1)
               else (case findAndUpdate svc i (mro_filter opts) (Unset relationName) s1 of
                       (Inl e, s2) \<Rightarrow> (Inl e, s2)
                     | (Inr entity, s2) \<Rightarrow> getById svc i s2)))"

definition removeRelations ::
  "service \<Rightarrow> string \<Rightarrow> scalar \<Rightarrow> scalar list \<Rightarrow> modify_relation_options \<Rightarrow> state
     \<Rightarrow> (error + document) \<times> state" where
  "removeRelations svc relationName i relationIds opts s =
     (case checkForReference svc ''RemoveRelations'' relationName False of
        Inl e \<Rightarrow> (Inl e, s)
      | Inr u \<Rightarrow>
          (case getRefCount svc relationName relationIds (relationFilter opts) s of
             (Inl e, s1) \<Rightarrow> (Inl e, s1)
           | (Inr refCount, s1) \<Rightarrow>
               if length relationIds \<noteq> refCount
               then (Inl (UnableToFindAllToRemove relationName (modelName svc)), s1)
               else if isVirtualPath svc relationName
               then (Inl (NotSupportedForVirtual ''RemoveRelations'' relationName), s1)
               else (case findAndUpdate svc i (mro_filter opts) (PullAll relationName relationIds) s1 of
                       (Inl e, s2) \<Rightarrow> (Inl e, s2)
                     | (Inr entity, s2) \<Rightarrow> getById svc i s2)))"

section \<open>Notions used in the statements\<close>

text \<open>An optional filter passes a document when it is absent or matches it.\<close>

definition passes :: "filter option \<Rightarrow> document \<Rightarrow> bool" where
  "passes f d = (case f of None \<Rightarrow> True | Some g \<Rightarrow> matches g d)"

text \<open>
  The documents of the target collection with one of the given ids that pass the relation
  filter, and the documents of the primary collection with the given id that pass the
  filter of the caller.
\<close>

definition matching_targets :: "state \<Rightarrow> string \<Rightarrow> scalar list \<Rightarrow> filter option \<Rightarrow> document list" where
  "matching_targets s M ids rf = filter (\<lambda>d. doc_id d \<in> set ids \<and> passes rf d) (colls s M)"

definition matching_entities :: "state \<Rightarrow> string \<Rightarrow> scalar \<Rightarrow> filter option \<Rightarrow> document list" where
  "matching_entities s P i f = filter (\<lambda>d. doc_id d = i \<and> passes f d) (colls s P)"

text \<open>
  A read operation accepts a relation name when it returns a result, or fails only because
  the schema type of the relation names no target model.
\<close>

definition accepted :: "string \<Rightarrow> (error + 'a) \<times> state \<Rightarrow> bool" where
  "accepted n r = ((\<exists>v. fst r = Inr v) \<or> fst r = Inl (UnableToLookupReferenceType n))"

text \<open>
  The frame of a mutation of the entity \<open>i\<close> of the primary model \<open>P\<close>: every other
  collection is as before, and the primary collection is as before or differs in one
  document, which has the id \<open>i\<close> before and after; the calls added to the trace are the
  update and the reload of \<open>P\<close>, and count queries.
\<close>

definition only_entity_written ::
  "string \<Rightarrow> scalar \<Rightarrow> (string \<Rightarrow> document list) \<Rightarrow> (string \<Rightarrow> document list) \<Rightarrow> bool" where
  "only_entity_written P i c c' =
     ((\<forall>M. M \<noteq> P \<longrightarrow> c' M = c M)
      \<and> (c' P = c P
         \<or> (\<exists>pre d d' post. c P = pre @ d # post \<and> c' P = pre @ d' # post
               \<and> doc_id d = i \<and> doc_id d' = i)))"

definition mutation_frame :: "string \<Rightarrow> scalar \<Rightarrow> state \<Rightarrow> state \<Rightarrow> bool" where
  "mutation_frame P i s s' =
     (only_entity_written P i (colls s) (colls s')
      \<and> (\<exists>ops. trace s' = trace s @ ops
            \<and> (\<forall>op \<in> set ops. op = OpFindOneAndUpdate P \<or> op = OpFindOne P \<or> (\<exists>M. op = OpCount M))))"

text \<open>The entities of a list in the order of their first occurrence, one for each reference.\<close>

fun first_occurrences :: "dto list \<Rightarrow> dto list" where
  "first_occurrences [] = []"
| "first_occurrences (d # ds) = d # first_occurrences (filter (\<lambda>x. dto_ref x \<noteq> dto_ref d) ds)"

section \<open>Example data\<close>

text \<open>
  The scenario of the spec: a model \<^verbatim>\<open>Post\<close> with a reference array \<^verbatim>\<open>tags\<close> into
  \<^verbatim>\<open>Tag\<close>, a single reference \<^verbatim>\<open>owner\<close> into \<^verbatim>\<open>User\<close>, and a virtual lookup
  \<^verbatim>\<open>comments\<close> into \<^verbatim>\<open>Comment\<close>; the entity \<^verbatim>\<open>E1\<close> and the tags \<^verbatim>\<open>t1\<close>, \<^verbatim>\<open>t2\<close>.
\<close>

definition postService :: service where
  "postService =
     \<lparr>modelName = ''Post'',
      schema_paths =
        [(''tags'', \<lparr>embedded_ref = Some ''Tag'', options_ref = None\<rparr>),
         (''owner'', \<lparr>embedded_ref = None, options_ref = Some ''User''\<rparr>),
         (''title'', \<lparr>embedded_ref = None, options_ref = None\<rparr>)],
      schema_virtuals =
        [(''comments'',
          \<lparr>voptions = Some \<lparr>vref = ''Comment'', foreignField = ''post'', localField = ''_id'',
                               justOne = False\<rparr>\<rparr>)]\<rparr>"

definition e1 :: document where
  "e1 = \<lparr>doc_id = Str ''E1'', doc_fields = [(''tags'', VMany [])]\<rparr>"

definition e1_tagged :: document where
  "e1_tagged = \<lparr>doc_id = Str ''E1'', doc_fields = [(''tags'', VMany [Str ''t1'', Str ''t2''])]\<rparr>"

definition tag1 :: document where
  "tag1 = \<lparr>doc_id = Str ''t1'', doc_fields = []\<rparr>"

definition tag2 :: document where
  "tag2 = \<lparr>doc_id = Str ''t2'', doc_fields = []\<rparr>"

definition user1 :: document where
  "user1 = \<lparr>doc_id = Str ''u1'', doc_fields = []\<rparr>"

definition store0 :: state where
  "store0 =
     \<lparr>colls = (\<lambda>M. if M = ''Post'' then [e1]
                    else if M = ''Tag'' then [tag1, tag2]
                    else if M = ''User'' then [user1] else []),
      trace = []\<rparr>"

text \<open>The store after \<^verbatim>\<open>E1\<close> has been deleted from the primary collection.\<close>

definition store_without_e1 :: state where
  "store_without_e1 = store0\<lparr>colls := (colls store0)(''Post'' := [])\<rparr>"

text \<open>
  The store after \<^verbatim>\<open>addRelations("tags", E1.id, ["t1", "t2"])\<close>, and a query for the first
  page of size 1.
\<close>

definition store_tagged :: state where
  "store_tagged =
     called (OpFindOneAndUpdate ''Post'')
       (called (OpCount ''Tag'') (store0\<lparr>colls := (colls store0)(''Post'' := [e1_tagged])\<rparr>))"

definition first_page :: query where
  "first_page = \<lparr>q_filter = None, q_limit = Some 1, q_offset = None, q_sorting = []\<rparr>"

text \<open>
  A service with one virtual lookup, \<^verbatim>\<open>reviews\<close> into \<^verbatim>\<open>Review\<close>, that matches the
  local field \<^verbatim>\<open>slug\<close> against the foreign field \<^verbatim>\<open>postSlug\<close>; an entity whose
  \<^verbatim>\<open>slug\<close> is the empty array (\<^verbatim>\<open>E1\<close> above has no \<^verbatim>\<open>slug\<close>), and a store with two
  reviews that have no \<^verbatim>\<open>postSlug\<close>.
\<close>

definition reviewsOptions :: virtual_options where
  "reviewsOptions =
     \<lparr>vref = ''Review'', foreignField = ''postSlug'', localField = ''slug'', justOne = False\<rparr>"

definition reviewService :: service where
  "reviewService =
     \<lparr>modelName = ''Post'',
      schema_paths = [],
      schema_virtuals = [(''reviews'', \<lparr>voptions = Some reviewsOptions\<rparr>)]\<rparr>"

definition e1_no_slugs :: document where
  "e1_no_slugs = \<lparr>doc_id = Str ''E1'', doc_fields = [(''slug'', VMany [])]\<rparr>"

definition review1 :: document where
  "review1 = \<lparr>doc_id = Str ''r1'', doc_fields = []\<rparr>"

definition review2 :: document where
  "review2 = \<lparr>doc_id = Str ''r2'', doc_fields = []\<rparr>"

definition store_reviews :: state where
  "store_reviews =
     \<lparr>colls = (\<lambda>M. if M = ''Post'' then [e1] else if M = ''Review'' then [review1, review2] else []),
      trace = []\<rparr>"

definition idAssembler :: assembler where
  "idAssembler = \<lparr>convertQuery = (\<lambda>q. q), convertAggregateQuery = (\<lambda>a. a), convertToDTO = (\<lambda>p. p)\<rparr>"

definition countEnv :: "nat agg_env" where
  "countEnv =
     \<lparr>group_stage = (\<lambda>aggregate ds. [(''count'', length ds)]),
      convertToAggregateResponse = (\<lambda>row. [(COUNT, row)])\<rparr>"

definition noOpts :: modify_relation_options where
  "noOpts = \<lparr>mro_filter = None, relationFilter = None\<rparr>"

section \<open>Basic facts\<close>

lemma colls_called [simp]: "colls (called op s) = colls s"
  by (simp add: called_def)

lemma trace_called [simp]: "trace (called op s) = trace s @ [op]"
  by (simp add: called_def)

lemma matching_targets_called [simp]:
  "matching_targets (called op s) M ids rf = matching_targets s M ids rf"
  by (simp add: matching_targets_def)

lemma matching_entities_called [simp]:
  "matching_entities (called op s) P i f = matching_entities s P i f"
  by (simp add: matching_entities_def)

lemma checkForReference_path:
  "isReferencePath svc n \<Longrightarrow> checkForReference svc operation n allowVirtual = Inr ()"
  by (simp add: checkForReference_def)


lemma checkForReference_unknown:
  "\<not> isReferencePath svc n \<Longrightarrow> \<not> isVirtualPath svc n \<Longrightarrow>
   checkForReference svc operation n allowVirtual = Inl (UnableToFindReference n (modelName svc))"
  by (simp add: checkForReference_def)

lemma buildIdFilterQuery_many:
  "buildIdFilterQuery (VMany ids) rf = (\<lambda>d. doc_id d \<in> set ids \<and> passes rf d)"
  by (simp add: buildIdFilterQuery_def buildFilterQuery_def passes_def fun_eq_iff split: option.splits)

lemma buildIdFilterQuery_one:
  "buildIdFilterQuery (VOne i) f = (\<lambda>d. doc_id d = i \<and> passes f d)"
  by (simp add: buildIdFilterQuery_def buildFilterQuery_def passes_def fun_eq_iff split: option.splits)

lemma getRefCount_resolved:
  "getReferenceModel svc n = Inr M \<Longrightarrow>
   getRefCount svc n ids rf s = (Inr (length (matching_targets s M ids rf)), called (OpCount M) s)"
  by (simp add: getRefCount_def countDocs_def matching_targets_def buildIdFilterQuery_many)

lemma update_first_none:
  "\<not> list_ex q ds \<Longrightarrow> update_first q u ds = Inr (None, ds)"
  by (induction ds) auto

lemma findAndUpdate_not_found:
  "matching_entities s (modelName svc) i f = [] \<Longrightarrow>
   findAndUpdate svc i f u s =
     (Inl (NotFoundException (modelName svc) i), called (OpFindOneAndUpdate (modelName svc)) s)"
  by (simp add: findAndUpdate_def findOneAndUpdate_def buildIdFilterQuery_one matching_entities_def
      update_first_none filter_empty_conv list_ex_iff)

text \<open>Facts about the example data.\<close>

lemma postService_paths:
  "isReferencePath postService ''tags''" "isReferencePath postService ''owner''"
  "isReferencePath postService ''title''"
  "\<not> isReferencePath postService ''comments''" "\<not> isReferencePath postService ''author''"
  "isVirtualPath postService ''comments''" "\<not> isVirtualPath postService ''author''"
  "\<not> isVirtualPath postService ''tags''" "\<not> isVirtualPath postService ''owner''"
  by (simp_all add: isReferencePath_def isVirtualPath_def schema_path_def schema_virtualpath_def
      postService_def)

lemma postService_models:
  "getReferenceModel postService ''tags'' = Inr ''Tag''"
  "getReferenceModel postService ''owner'' = Inr ''User''"
  "getReferenceModel postService ''comments'' = Inr ''Comment''"
  "getReferenceModel postService ''title'' = Inl (UnableToLookupReferenceType ''title'')"
  by (simp_all add: getReferenceModel_def schema_path_def schema_virtualpath_def postService_def)

lemma postService_name [simp]: "modelName postService = ''Post''"
  by (simp add: postService_def)

lemma store0_colls [simp]:
  "colls store0 ''Post'' = [e1]" "colls store0 ''Tag'' = [tag1, tag2]"
  "colls store0 ''User'' = [user1]" "colls store0 ''Comment'' = []"
  by (simp_all add: store0_def)

lemma example_ids [simp]:
  "doc_id e1 = Str ''E1''" "doc_id e1_tagged = Str ''E1''" "doc_id tag1 = Str ''t1''"
  "doc_id tag2 = Str ''t2''" "doc_id user1 = Str ''u1''"
  by (simp_all add: e1_def e1_tagged_def tag1_def tag2_def user1_def)

lemma noOpts_simps [simp]: "mro_filter noOpts = None" "relationFilter noOpts = None"
  by (simp_all add: noOpts_def)

section \<open>Unknown relation names\<close>

text \<open>
  Claim C1. For a relation name that is neither a path nor a virtual path of the schema,
  each of the eight public operations, in its single and in its batched form, fails with
  the fault "Unable to find reference ... on ..." and returns the state it was given: no
  call to the store has been made.
\<close>

theorem unknown_relation_fails:
  assumes "\<not> isReferencePath svc n" and "\<not> isVirtualPath svc n"
  shows "findRelation svc asm n dto fo s = (Inl (UnableToFindReference n (modelName svc)), s)
       \<and> queryRelations svc asm n dto q s = (Inl (UnableToFindReference n (modelName svc)), s)
       \<and> aggregateRelations svc asm env n dto f aq s = (Inl (UnableToFindReference n (modelName svc)), s)
       \<and> countRelations svc asm n dto f s = (Inl (UnableToFindReference n (modelName svc)), s)
       \<and> addRelations svc n i ids opts s = (Inl (UnableToFindReference n (modelName svc)), s)
       \<and> setRelation svc n i rid opts s = (Inl (UnableToFindReference n (modelName svc)), s)
       \<and> removeRelation svc n i rid opts s = (Inl (UnableToFindReference n (modelName svc)), s)
       \<and> removeRelations svc n i ids opts s = (Inl (UnableToFindReference n (modelName svc)), s)"
proof -
  have c: "\<And>operation allowVirtual.
      checkForReference svc operation n allowVirtual = Inl (UnableToFindReference n (modelName svc))"
    using assms by (simp add: checkForReference_unknown)
  show ?thesis
    by (simp add: c findRelation_def queryRelations_def aggregateRelations_def countRelations_def
        addRelations_def setRelation_def removeRelation_def removeRelations_def)
qed

theorem unknown_relation_fails_witness:
  "\<not> isReferencePath postService ''author'' \<and> \<not> isVirtualPath postService ''author''
   \<and> findRelation postService idAssembler ''author'' (Many [Dto 0 e1]) None store0 =
       (Inl (UnableToFindReference ''author'' ''Post''), store0)
   \<and> queryRelations postService idAssembler ''author'' (One (Dto 0 e1)) (filter_only None) store0 =
       (Inl (UnableToFindReference ''author'' ''Post''), store0)
   \<and> aggregateRelations postService idAssembler countEnv ''author'' (One (Dto 0 e1)) FEmpty [] store0 =
       (Inl (UnableToFindReference ''author'' ''Post''), store0)
   \<and> countRelations postService idAssembler ''author'' (Many [Dto 0 e1]) FEmpty store0 =
       (Inl (UnableToFindReference ''author'' ''Post''), store0)
   \<and> addRelations postService ''author'' (Str ''E1'') [Str ''u1''] noOpts store0 =
       (Inl (UnableToFindReference ''author'' ''Post''), store0)
   \<and> setRelation postService ''author'' (Str ''E1'') (Str ''u1'') noOpts store0 =
       (Inl (UnableToFindReference ''author'' ''Post''), store0)
   \<and> removeRelation postService ''author'' (Str ''E1'') (Str ''u1'') noOpts store0 =
       (Inl (UnableToFindReference ''author'' ''Post''), store0)
   \<and> removeRelations postService ''author'' (Str ''E1'') [Str ''u1''] noOpts store0 =
       (Inl (UnableToFindReference ''author'' ''Post''), store0)"
proof -
  have h1: "\<not> isReferencePath postService ''author''" by (rule postService_paths)
  have h2: "\<not> isVirtualPath postService ''author''" by (rule postService_paths)
  note fails = unknown_relation_fails [OF h1 h2, unfolded postService_name]
  show ?thesis
    using h1 h2 fails by blast
qed

section \<open>Verification of the relation targets\<close>

text \<open>
  Claim C2. For a relation that is a path of the schema with target model \<open>M\<close>: when the
  number of documents of \<open>M\<close> with one of the given ids that pass the relation filter
  differs from the number of ids (add, removeRelations) or from 1 (set, removeRelation),
  the operation fails with its "Unable to find ..." fault, and the state it returns is the
  given one with the count query added to the trace: no collection has changed.
\<close>

theorem partial_match_rejected:
  assumes "isReferencePath svc n" and "getReferenceModel svc n = Inr M"
  shows "(length (matching_targets s M ids (relationFilter opts)) \<noteq> length ids \<longrightarrow>
            addRelations svc n i ids opts s =
              (Inl (UnableToFindAllToAdd n (modelName svc)), called (OpCount M) s)
          \<and> removeRelations svc n i ids opts s =
              (Inl (UnableToFindAllToRemove n (modelName svc)), called (OpCount M) s))
       \<and> (length (matching_targets s M [rid] (relationFilter opts)) \<noteq> 1 \<longrightarrow>
            setRelation svc n i rid opts s =
              (Inl (UnableToFindToSet n (modelName svc)), called (OpCount M) s)
          \<and> removeRelation svc n i rid opts s =
              (Inl (UnableToFindToRemove n (modelName svc)), called (OpCount M) s))"
  using assms
  by (simp add: addRelations_def removeRelations_def setRelation_def removeRelation_def
      checkForReference_path getRefCount_resolved)

text \<open>
  The scenarios of the spec: adding \<^verbatim>\<open>["t1", "t3"]\<close> to \<^verbatim>\<open>tags\<close> when \<^verbatim>\<open>t3\<close> does not
  exist, and setting \<^verbatim>\<open>owner\<close> to \<^verbatim>\<open>u404\<close>.
\<close>

theorem partial_match_rejected_witness:
  "isReferencePath postService ''tags'' \<and> getReferenceModel postService ''tags'' = Inr ''Tag''
   \<and> length (matching_targets store0 ''Tag'' [Str ''t1'', Str ''t3''] (relationFilter noOpts)) \<noteq>
       length [Str ''t1'', Str ''t3'']
   \<and> addRelations postService ''tags'' (Str ''E1'') [Str ''t1'', Str ''t3''] noOpts store0 =
       (Inl (UnableToFindAllToAdd ''tags'' ''Post''), called (OpCount ''Tag'') store0)
   \<and> removeRelations postService ''tags'' (Str ''E1'') [Str ''t1'', Str ''t3''] noOpts store0 =
       (Inl (UnableToFindAllToRemove ''tags'' ''Post''), called (OpCount ''Tag'') store0)
   \<and> isReferencePath postService ''owner'' \<and> getReferenceModel postService ''owner'' = Inr ''User''
   \<and> length (matching_targets store0 ''User'' [Str ''u404''] (relationFilter noOpts)) \<noteq> 1
   \<and> setRelation postService ''owner'' (Str ''E1'') (Str ''u404'') noOpts store0 =
       (Inl (UnableToFindToSet ''owner'' ''Post''), called (OpCount ''User'') store0)
   \<and> removeRelation postService ''owner'' (Str ''E1'') (Str ''u404'') noOpts store0 =
       (Inl (UnableToFindToRemove ''owner'' ''Post''), called (OpCount ''User'') store0)
   \<and> colls (called (OpCount ''Tag'') store0) = colls store0"
proof -
  have t1: "isReferencePath postService ''tags''" by (rule postService_paths)
  have t2: "getReferenceModel postService ''tags'' = Inr ''Tag''" by (rule postService_models)
  have t3: "length (matching_targets store0 ''Tag'' [Str ''t1'', Str ''t3''] (relationFilter noOpts)) \<noteq>
      length [Str ''t1'', Str ''t3'']"
    by (simp add: matching_targets_def passes_def)
  have o1: "isReferencePath postService ''owner''" by (rule postService_paths)
  have o2: "getReferenceModel postService ''owner'' = Inr ''User''" by (rule postService_models)
  have o3: "length (matching_targets store0 ''User'' [Str ''u404''] (relationFilter noOpts)) \<noteq> 1"
    by (simp add: matching_targets_def passes_def)
  note tags = partial_match_rejected [OF t1 t2, unfolded postService_name]
  note owner = partial_match_rejected [OF o1 o2, unfolded postService_name]
  have c: "colls (called (OpCount ''Tag'') store0) = colls store0" by simp
  show ?thesis
    using t1 t2 t3 o1 o2 o3 c tags owner by blast
qed

text \<open>
  Claim C6. For a relation that is a path of the schema with target model \<open>M\<close>, when no
  document of the primary collection has the given id and passes the filter of the caller,
  and the verification of the relation targets has succeeded, each mutation fails with the
  "not found" fault, after the count query and the update call. For removeRelations the name
  must not also be a virtual path, which that operation rejects before the update.
\<close>

theorem missing_entity_not_found:
  assumes "isReferencePath svc n" and "getReferenceModel svc n = Inr M"
    and "matching_entities s (modelName svc) i (mro_filter opts) = []"
  shows "(length (matching_targets s M ids (relationFilter opts)) = length ids \<longrightarrow>
            addRelations svc n i ids opts s =
              (Inl (NotFoundException (modelName svc) i),
               called (OpFindOneAndUpdate (modelName svc)) (called (OpCount M) s))
          \<and> (\<not> isVirtualPath svc n \<longrightarrow>
               removeRelations svc n i ids opts s =
                 (Inl (NotFoundException (modelName svc) i),
                  called (OpFindOneAndUpdate (modelName svc)) (called (OpCount M) s))))
       \<and> (length (matching_targets s M [rid] (relationFilter opts)) = 1 \<longrightarrow>
            setRelation svc n i rid opts s =
              (Inl (NotFoundException (modelName svc) i),
               called (OpFindOneAndUpdate (modelName svc)) (called (OpCount M) s))
          \<and> removeRelation svc n i rid opts s =
              (Inl (NotFoundException (modelName svc) i),
               called (OpFindOneAndUpdate (modelName svc)) (called (OpCount M) s)))"
proof -
  have nf: "\<And>u. findAndUpdate svc i (mro_filter opts) u (called (OpCount M) s) =
      (Inl (NotFoundException (modelName svc) i),
       called (OpFindOneAndUpdate (modelName svc)) (called (OpCount M) s))"
    using assms(3) by (intro findAndUpdate_not_found) simp
  show ?thesis
    using assms(1,2)
    by (simp add: addRelations_def removeRelations_def setRelation_def removeRelation_def
        checkForReference_path getRefCount_resolved nf)
qed


theorem missing_entity_not_found_witness:
  "isReferencePath postService ''tags'' \<and> getReferenceModel postService ''tags'' = Inr ''Tag''
   \<and> matching_entities store0 ''Post'' (Str ''E9'') (mro_filter noOpts) = []
   \<and> length (matching_targets store0 ''Tag'' [Str ''t1'', Str ''t2''] (relationFilter noOpts)) =
       length [Str ''t1'', Str ''t2'']
   \<and> addRelations postService ''tags'' (Str ''E9'') [Str ''t1'', Str ''t2''] noOpts store0 =
       (Inl (NotFoundException ''Post'' (Str ''E9'')),
        called (OpFindOneAndUpdate ''Post'') (called (OpCount ''Tag'') store0))
   \<and> \<not> isVirtualPath postService ''tags''
   \<and> removeRelations postService ''tags'' (Str ''E9'') [Str ''t1'', Str ''t2''] noOpts store0 =
       (Inl (NotFoundException ''Post'' (Str ''E9'')),
        called (OpFindOneAndUpdate ''Post'') (called (OpCount ''Tag'') store0))
   \<and> length (matching_targets store0 ''Tag'' [Str ''t1''] (relationFilter noOpts)) = 1
   \<and> setRelation postService ''tags'' (Str ''E9'') (Str ''t1'') noOpts store0 =
       (Inl (NotFoundException ''Post'' (Str ''E9'')),
        called (OpFindOneAndUpdate ''Post'') (called (OpCount ''Tag'') store0))
   \<and> removeRelation postService ''tags'' (Str ''E9'') (Str ''t1'') noOpts store0 =
       (Inl (NotFoundException ''Post'' (Str ''E9'')),
        called (OpFindOneAndUpdate ''Post'') (called (OpCount ''Tag'') store0))"
proof -
  have h1: "isReferencePath postService ''tags''" by (rule postService_paths)
  have h2: "getReferenceModel postService ''tags'' = Inr ''Tag''" by (rule postService_models)
  have h3: "matching_entities store0 (modelName postService) (Str ''E9'') (mro_filter noOpts) = []"
    by (simp add: matching_entities_def)
  have h4: "length (matching_targets store0 ''Tag'' [Str ''t1'', Str ''t2''] (relationFilter noOpts)) =
      length [Str ''t1'', Str ''t2'']"
    by (simp add: matching_targets_def passes_def)
  have h5: "\<not> isVirtualPath postService ''tags''" by (rule postService_paths)
  have h6: "length (matching_targets store0 ''Tag'' [Str ''t1''] (relationFilter noOpts)) = 1"
    by (simp add: matching_targets_def passes_def)
  note nf = missing_entity_not_found [OF h1 h2 h3, unfolded postService_name]
  show ?thesis
    using h1 h2 h3 [unfolded postService_name] h4 h5 h6 nf by blast
qed

section \<open>Duplicate relation ids\<close>

lemma count_le_card:
  "distinct (map doc_id ds) \<Longrightarrow>
   length (filter (\<lambda>d. doc_id d \<in> A \<and> P d) ds) \<le> card (A \<inter> doc_id ` set ds)"
proof (induction ds)
  case Nil
  then show ?case by simp
next
  case (Cons d ds)
  have fin: "finite (A \<inter> doc_id ` set (d # ds))" by simp
  have sub: "A \<inter> doc_id ` set ds \<subseteq> A \<inter> doc_id ` set (d # ds)" by auto
  have ih: "length (filter (\<lambda>d. doc_id d \<in> A \<and> P d) ds) \<le> card (A \<inter> doc_id ` set ds)"
    using Cons by simp
  show ?case
  proof (cases "doc_id d \<in> A \<and> P d")
    case True
    have notin: "doc_id d \<notin> A \<inter> doc_id ` set ds" using Cons.prems by auto
    have eq: "A \<inter> doc_id ` set (d # ds) = insert (doc_id d) (A \<inter> doc_id ` set ds)"
      using True by auto
    have "card (A \<inter> doc_id ` set (d # ds)) = Suc (card (A \<inter> doc_id ` set ds))"
      unfolding eq using notin by (simp add: card_insert_disjoint)
    with ih True show ?thesis by simp
  next
    case False
    have mono: "card (A \<inter> doc_id ` set ds) \<le> card (A \<inter> doc_id ` set (d # ds))"
      using fin sub by (rule card_mono)
    have "filter (\<lambda>d. doc_id d \<in> A \<and> P d) (d # ds) = filter (\<lambda>d. doc_id d \<in> A \<and> P d) ds"
      using False by simp
    then show ?thesis using ih mono by (simp only: order_trans)
  qed
qed

lemma matching_targets_le:
  assumes "distinct (map doc_id (colls s M))"
  shows "length (matching_targets s M ids rf) \<le> card (set ids)"
proof -
  have "length (matching_targets s M ids rf) \<le> card (set ids \<inter> doc_id ` set (colls s M))"
    unfolding matching_targets_def using assms by (rule count_le_card)
  also have "\<dots> \<le> card (set ids)"
    by (rule card_mono) auto
  finally show ?thesis .
qed

lemma card_lt_length: "\<not> distinct xs \<Longrightarrow> card (set xs) < length xs"
  using card_length [of xs] card_distinct [of xs] by (cases "card (set xs) = length xs") auto

text \<open>
  Claim C10. In a target collection whose documents have distinct ids, a list of relation
  ids with a duplicate has more entries than documents that match it, so addRelations and
  removeRelations fail with "Unable to find all ...", whether or not every id exists.
\<close>

theorem duplicate_ids_rejected:
  assumes "isReferencePath svc n" and "getReferenceModel svc n = Inr M"
    and "distinct (map doc_id (colls s M))" and "\<not> distinct ids"
  shows "addRelations svc n i ids opts s =
           (Inl (UnableToFindAllToAdd n (modelName svc)), called (OpCount M) s)
       \<and> removeRelations svc n i ids opts s =
           (Inl (UnableToFindAllToRemove n (modelName svc)), called (OpCount M) s)"
proof -
  have "length (matching_targets s M ids (relationFilter opts)) < length ids"
    using matching_targets_le [OF assms(3), of ids "relationFilter opts"] card_lt_length [OF assms(4)]
    by simp
  then show ?thesis
    using assms(1,2)
    by (simp add: addRelations_def removeRelations_def checkForReference_path getRefCount_resolved)
qed


theorem duplicate_ids_rejected_witness:
  "isReferencePath postService ''tags'' \<and> getReferenceModel postService ''tags'' = Inr ''Tag''
   \<and> distinct (map doc_id (colls store0 ''Tag'')) \<and> \<not> distinct [Str ''t1'', Str ''t1'']
   \<and> set [Str ''t1'', Str ''t1''] \<subseteq> doc_id ` set (colls store0 ''Tag'')
   \<and> addRelations postService ''tags'' (Str ''E1'') [Str ''t1'', Str ''t1''] noOpts store0 =
       (Inl (UnableToFindAllToAdd ''tags'' ''Post''), called (OpCount ''Tag'') store0)
   \<and> removeRelations postService ''tags'' (Str ''E1'') [Str ''t1'', Str ''t1''] noOpts store0 =
       (Inl (UnableToFindAllToRemove ''tags'' ''Post''), called (OpCount ''Tag'') store0)"
proof -
  have h1: "isReferencePath postService ''tags''" by (rule postService_paths)
  have h2: "getReferenceModel postService ''tags'' = Inr ''Tag''" by (rule postService_models)
  have h3: "distinct (map doc_id (colls store0 ''Tag''))" by simp
  have h4: "\<not> distinct [Str ''t1'', Str ''t1'']" by simp
  have h5: "set [Str ''t1'', Str ''t1''] \<subseteq> doc_id ` set (colls store0 ''Tag'')" by simp
  note dup = duplicate_ids_rejected [OF h1 h2 h3 h4, unfolded postService_name]
  show ?thesis
    using h1 h2 h3 h4 h5 dup by blast
qed

section \<open>Virtual relations\<close>

lemma accepted_simps [simp]:
  "accepted n (Inr v, s)" "accepted n (Inl e, s) = (e = UnableToLookupReferenceType n)"
  by (auto simp: accepted_def)

lemma accepted_apfst [simp]: "accepted n (apfst (map_sum id g) r) = accepted n r"
  by (cases r; cases "fst r") (auto simp: accepted_def)













section \<open>The frame of the mutations\<close>

lemma apply_update_id: "apply_update u d = Inr d' \<Longrightarrow> doc_id d' = doc_id d"
  by (auto simp: apply_update_def split: if_splits update.splits val.splits)

lemma update_first_frame:
  "update_first q u ds = Inr (r, ds') \<Longrightarrow>
   ds' = ds \<or> (\<exists>pre d d' post. ds = pre @ d # post \<and> ds' = pre @ d' # post \<and> q d \<and> u d = Inr d')"
proof (induction ds arbitrary: r ds')
  case Nil
  then show ?case by simp
next
  case (Cons a ds)
  show ?case
  proof (cases "q a")
    case True
    with Cons.prems obtain a' where "u a = Inr a'" "ds' = a' # ds"
      by (auto split: sum.splits)
    with True have "a # ds = [] @ a # ds \<and> ds' = [] @ a' # ds \<and> q a \<and> u a = Inr a'" by simp
    then show ?thesis by blast
  next
    case False
    with Cons.prems obtain ds'' where rec: "update_first q u ds = Inr (r, ds'')" and eq: "ds' = a # ds''"
      by (auto split: sum.splits prod.splits)
    from Cons.IH [OF rec] show ?thesis
    proof
      assume "ds'' = ds"
      with eq show ?thesis by simp
    next
      assume "\<exists>pre d d' post. ds = pre @ d # post \<and> ds'' = pre @ d' # post \<and> q d \<and> u d = Inr d'"
      then obtain pre d d' post where
        "ds = pre @ d # post" "ds'' = pre @ d' # post" "q d" "u d = Inr d'" by blast
      with eq have "a # ds = (a # pre) @ d # post \<and> ds' = (a # pre) @ d' # post \<and> q d \<and> u d = Inr d'"
        by simp
      then show ?thesis by blast
    qed
  qed
qed

lemma only_entity_written_refl [simp]: "only_entity_written P i c c"
  by (simp add: only_entity_written_def)

lemma findAndUpdate_effect:
  "\<exists>c'. snd (findAndUpdate svc i f u s) = called (OpFindOneAndUpdate (modelName svc)) (s\<lparr>colls := c'\<rparr>)
        \<and> only_entity_written (modelName svc) i (colls s) c'"
proof (cases "update_first (buildIdFilterQuery (VOne i) f) (apply_update u) (colls s (modelName svc))")
  case (Inl e)
  then have "snd (findAndUpdate svc i f u s) = called (OpFindOneAndUpdate (modelName svc)) (s\<lparr>colls := colls s\<rparr>)"
    by (simp add: findAndUpdate_def findOneAndUpdate_def)
  then show ?thesis using only_entity_written_refl by blast
next
  case (Inr p)
  obtain r ds' where p: "p = (r, ds')" by (cases p)
  have snd_eq: "snd (findAndUpdate svc i f u s) =
      called (OpFindOneAndUpdate (modelName svc)) (s\<lparr>colls := (colls s)(modelName svc := ds')\<rparr>)"
    using Inr p by (simp add: findAndUpdate_def findOneAndUpdate_def split: option.splits)
  have "only_entity_written (modelName svc) i (colls s) ((colls s)(modelName svc := ds'))"
    using update_first_frame [OF Inr [unfolded p]]
    by (auto simp: only_entity_written_def buildIdFilterQuery_one dest: apply_update_id)
  with snd_eq show ?thesis by blast
qed

lemma getRefCount_effect:
  "snd (getRefCount svc n ids rf s) = s \<or> (\<exists>M. snd (getRefCount svc n ids rf s) = called (OpCount M) s)"
  by (auto simp: getRefCount_def countDocs_def split: sum.splits)

lemma getById_effect: "snd (getById svc i s) = called (OpFindOne (modelName svc)) s"
  by (simp add: getById_def split: option.splits)

lemma mutation_frame_refl [simp]: "mutation_frame P i s s"
  by (simp add: mutation_frame_def)

lemma mutation_frame_count: "mutation_frame P i s (called (OpCount M) s)"
  by (simp add: mutation_frame_def)

lemma mutation_frame_update:
  assumes "colls s1 = colls s" and "trace s1 = trace s @ pre"
    and "\<forall>op \<in> set pre. op = OpFindOneAndUpdate P \<or> op = OpFindOne P \<or> (\<exists>M. op = OpCount M)"
    and "P = modelName svc"
  shows "mutation_frame P i s (snd (findAndUpdate svc i f u s1))"
    and "mutation_frame P i s (snd (getById svc i (snd (findAndUpdate svc i f u s1))))"
proof -
  obtain c' where eff: "snd (findAndUpdate svc i f u s1) = called (OpFindOneAndUpdate P) (s1\<lparr>colls := c'\<rparr>)"
    and w: "only_entity_written P i (colls s1) c'"
    using findAndUpdate_effect [of svc i f u s1] assms(4) by blast
  show "mutation_frame P i s (snd (findAndUpdate svc i f u s1))"
    unfolding mutation_frame_def eff using w assms(1,2,3) by auto
  show "mutation_frame P i s (snd (getById svc i (snd (findAndUpdate svc i f u s1))))"
    unfolding mutation_frame_def getById_effect eff assms(4) [symmetric] using w assms(1,2,3) by auto
qed


lemma getRefCount_cases:
  obtains (failed) e where "getRefCount svc n ids rf s = (Inl e, s)"
  | (counted) M k where "getRefCount svc n ids rf s = (Inr k, called (OpCount M) s)"
  by (cases "getReferenceModel svc n") (auto simp: getRefCount_def countDocs_def)

lemma mutation_frame_after_count:
  "mutation_frame (modelName svc) i s (snd (findAndUpdate svc i f u (called (OpCount M) s)))"
  "mutation_frame (modelName svc) i s
     (snd (getById svc i (snd (findAndUpdate svc i f u (called (OpCount M) s)))))"
  by (rule mutation_frame_update [where pre = "[OpCount M]"]; simp)+

lemma snd_case_sum_findAndUpdate:
  "snd (case findAndUpdate svc i f u s1 of (Inl e, s2) \<Rightarrow> (Inl e, s2) | (Inr entity, s2) \<Rightarrow> getById svc i s2)
   = (case fst (findAndUpdate svc i f u s1) of
        Inl e \<Rightarrow> snd (findAndUpdate svc i f u s1)
      | Inr entity \<Rightarrow> snd (getById svc i (snd (findAndUpdate svc i f u s1))))"
  by (cases "findAndUpdate svc i f u s1"; cases "fst (findAndUpdate svc i f u s1)") auto

text \<open>The first step of the scenario of the spec, run on the example store.\<close>

lemma tags_counted:
  "getRefCount postService ''tags'' [Str ''t1'', Str ''t2''] None store0 =
     (Inr 2, called (OpCount ''Tag'') store0)"
  by (simp add: getRefCount_resolved postService_models matching_targets_def passes_def)

lemma push_tags_e1: "apply_update (Push ''tags'' [Str ''t1'', Str ''t2'']) e1 = Inr e1_tagged"
  by (simp add: apply_update_def update_name_def getf_def e1_def e1_tagged_def)

lemma findAndUpdate_e1:
  "colls s ''Post'' = [e1] \<Longrightarrow>
   findAndUpdate postService (Str ''E1'') None (Push ''tags'' [Str ''t1'', Str ''t2'']) s =
     (Inr e1_tagged,
      called (OpFindOneAndUpdate ''Post'') (s\<lparr>colls := (colls s)(''Post'' := [e1_tagged])\<rparr>))"
  by (simp add: findAndUpdate_def findOneAndUpdate_def buildIdFilterQuery_one passes_def push_tags_e1)

lemma add_run:
  "addRelations postService ''tags'' (Str ''E1'') [Str ''t1'', Str ''t2''] noOpts store0 =
       (Inr e1_tagged,
        called (OpFindOneAndUpdate ''Post'')
          (called (OpCount ''Tag'') (store0\<lparr>colls := (colls store0)(''Post'' := [e1_tagged])\<rparr>)))"
proof -
  have "findAndUpdate postService (Str ''E1'') None (Push ''tags'' [Str ''t1'', Str ''t2''])
          (called (OpCount ''Tag'') store0) =
        (Inr e1_tagged, called (OpFindOneAndUpdate ''Post'')
           ((called (OpCount ''Tag'') store0)\<lparr>colls := (colls store0)(''Post'' := [e1_tagged])\<rparr>))"
    using findAndUpdate_e1 [of "called (OpCount ''Tag'') store0"] by simp
  then show ?thesis
    by (simp add: addRelations_def checkForReference_path postService_paths tags_counted called_def)
qed

lemma mutation_frames:
  "mutation_frame (modelName svc) i s (snd (addRelations svc n i ids opts s))
   \<and> mutation_frame (modelName svc) i s (snd (setRelation svc n i rid opts s))
   \<and> mutation_frame (modelName svc) i s (snd (removeRelation svc n i rid opts s))
   \<and> mutation_frame (modelName svc) i s (snd (removeRelations svc n i ids opts s))"
proof (intro conjI)
  show "mutation_frame (modelName svc) i s (snd (addRelations svc n i ids opts s))"
  proof (cases rule: getRefCount_cases [of svc n ids "relationFilter opts" s])
    case (failed e)
    then show ?thesis by (simp add: addRelations_def split: sum.splits)
  next
    case (counted M k)
    then show ?thesis
      by (simp add: addRelations_def mutation_frame_count mutation_frame_after_count split: sum.splits)
  qed
  show "mutation_frame (modelName svc) i s (snd (setRelation svc n i rid opts s))"
  proof (cases rule: getRefCount_cases [of svc n "[rid]" "relationFilter opts" s])
    case (failed e)
    then show ?thesis by (simp add: setRelation_def split: sum.splits)
  next
    case (counted M k)
    then show ?thesis
      by (simp add: setRelation_def mutation_frame_count mutation_frame_after_count split: sum.splits)
  qed
  show "mutation_frame (modelName svc) i s (snd (removeRelation svc n i rid opts s))"
  proof (cases rule: getRefCount_cases [of svc n "[rid]" "relationFilter opts" s])
    case (failed e)
    then show ?thesis by (simp add: removeRelation_def split: sum.splits)
  next
    case (counted M k)
    then show ?thesis
      by (simp add: removeRelation_def mutation_frame_count mutation_frame_after_count
          snd_case_sum_findAndUpdate split: sum.splits)
  qed
  show "mutation_frame (modelName svc) i s (snd (removeRelations svc n i ids opts s))"
  proof (cases rule: getRefCount_cases [of svc n ids "relationFilter opts" s])
    case (failed e)
    then show ?thesis by (simp add: removeRelations_def split: sum.splits)
  next
    case (counted M k)
    then show ?thesis
      by (simp add: removeRelations_def mutation_frame_count mutation_frame_after_count
          snd_case_sum_findAndUpdate split: sum.splits)
  qed
qed

lemma mutation_frame_others:
  "mutation_frame P i s s' \<Longrightarrow> M \<noteq> P \<Longrightarrow> colls s' M = colls s M"
  by (simp add: mutation_frame_def only_entity_written_def)

text \<open>
  Claim C9. Whatever its outcome, each mutation leaves every collection other than the
  primary one as it was, changes at most one document of the primary collection, which has
  the id of the source entity before and after, and calls the store only to count, to
  update the primary model and to reload from it. A target collection other than the
  primary one is therefore only counted, never written; when the relation points into the
  primary collection itself, the one document written there is the source entity.
\<close>

theorem mutations_write_one_entity:
  "mutation_frame (modelName svc) i s (snd (addRelations svc n i ids opts s))
   \<and> mutation_frame (modelName svc) i s (snd (setRelation svc n i rid opts s))
   \<and> mutation_frame (modelName svc) i s (snd (removeRelation svc n i rid opts s))
   \<and> mutation_frame (modelName svc) i s (snd (removeRelations svc n i ids opts s))
   \<and> (M \<noteq> modelName svc \<longrightarrow>
        colls (snd (addRelations svc n i ids opts s)) M = colls s M
      \<and> colls (snd (setRelation svc n i rid opts s)) M = colls s M
      \<and> colls (snd (removeRelation svc n i rid opts s)) M = colls s M
      \<and> colls (snd (removeRelations svc n i ids opts s)) M = colls s M)"
  using mutation_frames [of svc i s n ids opts rid]
  by (auto dest: mutation_frame_others)

theorem mutations_write_one_entity_witness:
  "mutation_frame ''Post'' (Str ''E1'') store0
     (snd (addRelations postService ''tags'' (Str ''E1'') [Str ''t1'', Str ''t2''] noOpts store0))
   \<and> ''Tag'' \<noteq> modelName postService
   \<and> colls (snd (addRelations postService ''tags'' (Str ''E1'') [Str ''t1'', Str ''t2''] noOpts store0))
        ''Tag'' = colls store0 ''Tag''
   \<and> addRelations postService ''tags'' (Str ''E1'') [Str ''t1'', Str ''t2''] noOpts store0 =
       (Inr e1_tagged,
        called (OpFindOneAndUpdate ''Post'')
          (called (OpCount ''Tag'') (store0\<lparr>colls := (colls store0)(''Post'' := [e1_tagged])\<rparr>)))"
proof -
  note frame = mutations_write_one_entity [where svc = postService and i = "Str ''E1''"
      and s = store0 and n = "''tags''" and ids = "[Str ''t1'', Str ''t2'']" and opts = noOpts
      and rid = "Str ''t1''" and M = "''Tag''"]
  have ne: "''Tag'' \<noteq> modelName postService" by simp
  have fr: "mutation_frame ''Post'' (Str ''E1'') store0
     (snd (addRelations postService ''tags'' (Str ''E1'') [Str ''t1'', Str ''t2''] noOpts store0))"
    using frame by simp
  have same: "colls (snd (addRelations postService ''tags'' (Str ''E1'') [Str ''t1'', Str ''t2''] noOpts store0))
        ''Tag'' = colls store0 ''Tag''"
    using frame ne by simp
  show ?thesis
    by (intro conjI) (rule fr, rule ne, rule same, rule add_run)
qed

section \<open>Reads that do not find the entity, or find no foreign key\<close>

lemma getReferenceModel_declared:
  "getReferenceModel svc n = Inr M \<Longrightarrow> isReferencePath svc n \<or> isVirtualPath svc n"
  by (auto simp: getReferenceModel_def isReferencePath_def isVirtualPath_def split: option.splits)

lemma checkForReference_declared:
  "isReferencePath svc n \<or> isVirtualPath svc n \<Longrightarrow> checkForReference svc operation n True = Inr ()"
  by (auto simp: checkForReference_def)

lemma countRelations_resolved:
  assumes "getReferenceModel svc n = Inr M"
    and "getReferenceFilter svc n (dto_doc d) (q_filter (convertQuery asm (filter_only (Some f)))) = Inr (Some rf)"
  shows "countRelations svc asm n (One d) f s =
           (Inr (Single (length (filter (matches rf) (colls s M)))), called (OpCount M) s)"
  using assms checkForReference_declared [OF getReferenceModel_declared [OF assms(1)]]
  by (simp add: countRelations_def countRelations_body_def countDocs_def buildFilterQuery_def)

lemma aggregateRelations_resolved:
  assumes "getReferenceModel svc n = Inr M"
    and "getReferenceFilter svc n (dto_doc d) (q_filter (convertQuery asm (filter_only (Some f)))) = Inr (Some rf)"
  shows "aggregateRelations svc asm env n (One d) f aq s =
           (Inr (Single (case filter (matches rf) (colls s M) of
                           [] \<Rightarrow> []
                         | x # xs \<Rightarrow> convertToAggregateResponse env
                                       (group_stage env (convertAggregateQuery asm aq) (x # xs)))),
            called (OpAggregate M) s)"
  using assms checkForReference_declared [OF getReferenceModel_declared [OF assms(1)]]
  by (simp add: aggregateRelations_def aggregateRelations_body_def aggregateExec_def
      buildAggregateQuery_def buildFilterQuery_def split: list.splits)

lemma missing_entity_find_query:
  assumes "isReferencePath svc n \<or> isVirtualPath svc n"
    and "find (\<lambda>x. doc_id x = doc_id (dto_doc d)) (colls s (modelName svc)) = None"
  shows "findRelation svc asm n (One d) fo s =
           (Inr (Single PUndefined), called (OpFindById (modelName svc)) s)"
    and "queryRelations svc asm n (One d) q s =
           (Inr (Single (PMany [])), called (OpFindById (modelName svc)) s)"
  using assms(2) checkForReference_declared [OF assms(1)]
  by (simp_all add: findRelation_def findRelation_body_def queryRelations_def queryRelations_body_def
      findById_def)

lemma matches_mergeFilter: "matches (mergeFilter a b) t = (matches a t \<and> matches b t)"
  by (auto simp: mergeFilter_def)

lemma empty_reference_matches_nothing:
  "getf e n = VUndefined \<or> getf e n = VMany [] \<Longrightarrow> \<not> matches (getObjectIdReferenceFilter n e fo) t"
  by (auto simp: getObjectIdReferenceFilter_def matches_mergeFilter getf_def eq_holds_def in_holds_def)

lemma getReferenceFilter_path:
  "isReferencePath svc n \<Longrightarrow>
   getReferenceFilter svc n e fo = Inr (Some (getObjectIdReferenceFilter n e fo))"
  by (simp add: getReferenceFilter_def)

lemma eq_holds_undefined: "eq_holds VUndefined x = (x = VUndefined)"
  by (cases x) (simp_all add: eq_holds_def)

lemma in_holds_empty: "\<not> in_holds [] x"
  by (cases x) (simp_all add: in_holds_def list_ex_iff)

lemma matches_virtual_filter:
  "matches (getVirtualReferenceFilter vo e cf) t =
     (passes cf t \<and>
      (case getf e (localField vo) of
         VMany vs \<Rightarrow> in_holds vs (getf t (foreignField vo))
       | v \<Rightarrow> eq_holds v (getf t (foreignField vo))))"
  by (auto simp: getVirtualReferenceFilter_def matches_mergeFilter passes_def
      split: option.splits val.splits)

lemma getReferenceFilter_virtual:
  "\<not> isReferencePath svc n \<Longrightarrow> schema_virtualpath svc n = Some vt \<Longrightarrow> voptions vt = Some vo \<Longrightarrow>
   getReferenceFilter svc n e cf = Inr (Some (getVirtualReferenceFilter vo e cf))"
  by (simp add: getReferenceFilter_def)

lemma getReferenceFilter_resolved:
  "getReferenceModel svc n = Inr M \<Longrightarrow> getReferenceFilter svc n e cf \<noteq> Inr None"
  by (auto simp: getReferenceModel_def getReferenceFilter_def isReferencePath_def
      split: option.splits)

lemma empty_virtual_matches_nothing:
  "getf e (localField vo) = VMany [] \<Longrightarrow> \<not> matches (getVirtualReferenceFilter vo e cf) t"
  by (simp add: matches_virtual_filter in_holds_empty)

lemma absent_virtual_matches:
  "getf e (localField vo) = VUndefined \<Longrightarrow>
   matches (getVirtualReferenceFilter vo e cf) t =
     (getf t (foreignField vo) = VUndefined \<and> passes cf t)"
  by (auto simp: matches_virtual_filter eq_holds_undefined)

text \<open>
  Claim C3, as the code has it. For a relation with a target model \<open>M\<close>, direct reference
  or virtual lookup, and an entity whose foreign-key value (the value of the relation
  field, or of the local field of the lookup) is absent or the empty array, countRelations
  and aggregateRelations each make one query of the target collection (a count, an
  aggregation) and return its result: the reference filter is always built for such a
  relation, so the return without a query is not taken. The result is 0 and the empty
  response for a direct reference, and for a virtual lookup whose local value is the empty
  array. For a virtual lookup whose local value is absent the filter compares the foreign
  field with \<^verbatim>\<open>undefined\<close>, and the result is the count and the aggregate of the target
  documents that have no foreign field and pass the filter of the caller.
\<close>

theorem empty_foreign_key_still_queries:
  assumes "getReferenceModel svc n = Inr M"
  shows "((isReferencePath svc n
            \<and> (getf (dto_doc d) n = VUndefined \<or> getf (dto_doc d) n = VMany []))
          \<or> (\<not> isReferencePath svc n \<and> schema_virtualpath svc n = Some vt \<and> voptions vt = Some vo
            \<and> getf (dto_doc d) (localField vo) = VMany []) \<longrightarrow>
          countRelations svc asm n (One d) f s = (Inr (Single 0), called (OpCount M) s)
        \<and> aggregateRelations svc asm env n (One d) f aq s =
            (Inr (Single []), called (OpAggregate M) s))
       \<and> (\<not> isReferencePath svc n \<and> schema_virtualpath svc n = Some vt \<and> voptions vt = Some vo
            \<and> getf (dto_doc d) (localField vo) = VUndefined \<longrightarrow>
          countRelations svc asm n (One d) f s =
            (Inr (Single (length (filter
                (\<lambda>t. getf t (foreignField vo) = VUndefined
                     \<and> passes (q_filter (convertQuery asm (filter_only (Some f)))) t)
                (colls s M)))),
             called (OpCount M) s)
        \<and> aggregateRelations svc asm env n (One d) f aq s =
            (Inr (Single (case filter
                (\<lambda>t. getf t (foreignField vo) = VUndefined
                     \<and> passes (q_filter (convertQuery asm (filter_only (Some f)))) t)
                (colls s M) of
                  [] \<Rightarrow> []
                | x # xs \<Rightarrow> convertToAggregateResponse env
                              (group_stage env (convertAggregateQuery asm aq) (x # xs)))),
             called (OpAggregate M) s))
       \<and> getReferenceFilter svc n (dto_doc d) fo \<noteq> Inr None"
proof (intro conjI impI)
  let ?cf = "q_filter (convertQuery asm (filter_only (Some f)))"
  assume a: "(isReferencePath svc n
            \<and> (getf (dto_doc d) n = VUndefined \<or> getf (dto_doc d) n = VMany []))
          \<or> (\<not> isReferencePath svc n \<and> schema_virtualpath svc n = Some vt \<and> voptions vt = Some vo
            \<and> getf (dto_doc d) (localField vo) = VMany [])"
  have "\<exists>rf. getReferenceFilter svc n (dto_doc d) ?cf = Inr (Some rf)
      \<and> filter (matches rf) (colls s M) = []"
  proof (cases "isReferencePath svc n")
    case True
    with a have e: "getf (dto_doc d) n = VUndefined \<or> getf (dto_doc d) n = VMany []" by simp
    have "getReferenceFilter svc n (dto_doc d) ?cf =
        Inr (Some (getObjectIdReferenceFilter n (dto_doc d) ?cf))"
      using True by (rule getReferenceFilter_path)
    moreover have "filter (matches (getObjectIdReferenceFilter n (dto_doc d) ?cf)) (colls s M) = []"
      using empty_reference_matches_nothing [OF e] by (simp add: filter_empty_conv)
    ultimately show ?thesis by blast
  next
    case False
    with a have v: "schema_virtualpath svc n = Some vt" "voptions vt = Some vo"
      and e: "getf (dto_doc d) (localField vo) = VMany []" by simp_all
    have "getReferenceFilter svc n (dto_doc d) ?cf =
        Inr (Some (getVirtualReferenceFilter vo (dto_doc d) ?cf))"
      using False v by (rule getReferenceFilter_virtual)
    moreover have "filter (matches (getVirtualReferenceFilter vo (dto_doc d) ?cf)) (colls s M) = []"
      using empty_virtual_matches_nothing [OF e] by (simp add: filter_empty_conv)
    ultimately show ?thesis by blast
  qed
  then obtain rf where rf: "getReferenceFilter svc n (dto_doc d) ?cf = Inr (Some rf)"
    and none: "filter (matches rf) (colls s M) = []" by blast
  show "countRelations svc asm n (One d) f s = (Inr (Single 0), called (OpCount M) s)"
    using countRelations_resolved [OF assms rf, of s] none by simp
  show "aggregateRelations svc asm env n (One d) f aq s = (Inr (Single []), called (OpAggregate M) s)"
    using aggregateRelations_resolved [OF assms rf, of env aq s] none by simp
next
  let ?cf = "q_filter (convertQuery asm (filter_only (Some f)))"
  assume b: "\<not> isReferencePath svc n \<and> schema_virtualpath svc n = Some vt \<and> voptions vt = Some vo
            \<and> getf (dto_doc d) (localField vo) = VUndefined"
  from b have b1: "\<not> isReferencePath svc n" and b2: "schema_virtualpath svc n = Some vt"
    and b3: "voptions vt = Some vo" and b4: "getf (dto_doc d) (localField vo) = VUndefined"
    by simp_all
  have rf: "getReferenceFilter svc n (dto_doc d) ?cf =
      Inr (Some (getVirtualReferenceFilter vo (dto_doc d) ?cf))"
    using b1 b2 b3 by (rule getReferenceFilter_virtual)
  have m: "matches (getVirtualReferenceFilter vo (dto_doc d) ?cf) =
      (\<lambda>t. getf t (foreignField vo) = VUndefined \<and> passes ?cf t)"
    using b4 by (simp add: absent_virtual_matches fun_eq_iff)
  show "countRelations svc asm n (One d) f s =
      (Inr (Single (length (filter (\<lambda>t. getf t (foreignField vo) = VUndefined \<and> passes ?cf t)
          (colls s M)))), called (OpCount M) s)"
    using countRelations_resolved [OF assms rf, of s] by (simp only: m)
  show "aggregateRelations svc asm env n (One d) f aq s =
      (Inr (Single (case filter (\<lambda>t. getf t (foreignField vo) = VUndefined \<and> passes ?cf t)
          (colls s M) of
            [] \<Rightarrow> []
          | x # xs \<Rightarrow> convertToAggregateResponse env
                        (group_stage env (convertAggregateQuery asm aq) (x # xs)))),
       called (OpAggregate M) s)"
    using aggregateRelations_resolved [OF assms rf, of env aq s] by (simp only: m)
next
  show "getReferenceFilter svc n (dto_doc d) fo \<noteq> Inr None"
    using assms by (rule getReferenceFilter_resolved)
qed


text \<open>
  Claim C4, as the code has it. findRelation and queryRelations fetch the entity from the
  primary collection by its id and, when it is not there, return \<^verbatim>\<open>undefined\<close> and the
  empty list. countRelations and aggregateRelations do not fetch it: they query the target
  collection with the reference filter built from the entity they are given, and return
  that count and that aggregate, whether or not the entity is still in the primary
  collection. None of the four raises for a missing entity.
\<close>

theorem deleted_entity_reads:
  "((isReferencePath svc n \<or> isVirtualPath svc n)
      \<and> find (\<lambda>x. doc_id x = doc_id (dto_doc d)) (colls s (modelName svc)) = None \<longrightarrow>
      findRelation svc asm n (One d) fo s =
        (Inr (Single PUndefined), called (OpFindById (modelName svc)) s)
    \<and> queryRelations svc asm n (One d) q s =
        (Inr (Single (PMany [])), called (OpFindById (modelName svc)) s))
   \<and> (getReferenceModel svc n = Inr M
      \<and> getReferenceFilter svc n (dto_doc d) (q_filter (convertQuery asm (filter_only (Some f)))) =
          Inr (Some rf) \<longrightarrow>
      countRelations svc asm n (One d) f s =
        (Inr (Single (length (filter (matches rf) (colls s M)))), called (OpCount M) s)
    \<and> aggregateRelations svc asm env n (One d) f aq s =
        (Inr (Single (case filter (matches rf) (colls s M) of
                        [] \<Rightarrow> []
                      | x # xs \<Rightarrow> convertToAggregateResponse env
                                    (group_stage env (convertAggregateQuery asm aq) (x # xs)))),
         called (OpAggregate M) s))"
proof (intro conjI impI)
  assume a: "(isReferencePath svc n \<or> isVirtualPath svc n)
      \<and> find (\<lambda>x. doc_id x = doc_id (dto_doc d)) (colls s (modelName svc)) = None"
  show "findRelation svc asm n (One d) fo s =
        (Inr (Single PUndefined), called (OpFindById (modelName svc)) s)"
    using a by (intro missing_entity_find_query(1)) simp_all
  show "queryRelations svc asm n (One d) q s =
        (Inr (Single (PMany [])), called (OpFindById (modelName svc)) s)"
    using a by (intro missing_entity_find_query(2)) simp_all
next
  assume b: "getReferenceModel svc n = Inr M
      \<and> getReferenceFilter svc n (dto_doc d) (q_filter (convertQuery asm (filter_only (Some f)))) =
          Inr (Some rf)"
  show "countRelations svc asm n (One d) f s =
        (Inr (Single (length (filter (matches rf) (colls s M)))), called (OpCount M) s)"
    using b by (intro countRelations_resolved) simp_all
  show "aggregateRelations svc asm env n (One d) f aq s =
        (Inr (Single (case filter (matches rf) (colls s M) of
                        [] \<Rightarrow> []
                      | x # xs \<Rightarrow> convertToAggregateResponse env
                                    (group_stage env (convertAggregateQuery asm aq) (x # xs)))),
         called (OpAggregate M) s)"
    using b by (intro aggregateRelations_resolved) simp_all
qed


lemma store_without_e1_colls [simp]:
  "colls store_without_e1 ''Post'' = []" "colls store_without_e1 ''Tag'' = [tag1, tag2]"
  by (simp_all add: store_without_e1_def)

lemma e1_fields [simp]:
  "getf e1 ''tags'' = VMany []" "getf e1_tagged ''tags'' = VMany [Str ''t1'', Str ''t2'']"
  by (simp_all add: getf_def e1_def e1_tagged_def)

lemma in_holds_id [simp]: "in_holds ids (getf t ''_id'') = (doc_id t \<in> set ids)"
  by (simp add: getf_def in_holds_def)

lemma idAssembler_simps [simp]:
  "convertQuery idAssembler q = q" "convertAggregateQuery idAssembler a = a"
  "convertToDTO idAssembler p = p"
  by (simp_all add: idAssembler_def)

lemma countEnv_simps [simp]:
  "group_stage countEnv a ds = [(''count'', length ds)]"
  "convertToAggregateResponse countEnv row = [(COUNT, row)]"
  by (simp_all add: countEnv_def)

lemma filter_only_filter [simp]: "q_filter (filter_only fo) = fo"
  by (simp add: filter_only_def)

lemma tags_filter_e1_tagged:
  "getReferenceFilter postService ''tags'' e1_tagged (Some FEmpty) =
     Inr (Some (FField ''_id'' (CIn [Str ''t1'', Str ''t2''])))"
  by (simp add: getReferenceFilter_path postService_paths getObjectIdReferenceFilter_def mergeFilter_def)

lemma tags_filter_e1:
  "getReferenceFilter postService ''tags'' e1 (Some FEmpty) = Inr (Some (FField ''_id'' (CIn [])))"
  by (simp add: getReferenceFilter_path postService_paths getObjectIdReferenceFilter_def mergeFilter_def)


lemma reviewService_reviews:
  "\<not> isReferencePath reviewService ''reviews''"
  "schema_virtualpath reviewService ''reviews'' = Some \<lparr>voptions = Some reviewsOptions\<rparr>"
  "getReferenceModel reviewService ''reviews'' = Inr ''Review''"
  by (simp_all add: isReferencePath_def schema_path_def schema_virtualpath_def getReferenceModel_def
      reviewService_def reviewsOptions_def)

lemma reviewsOptions_simps [simp]:
  "localField reviewsOptions = ''slug''" "foreignField reviewsOptions = ''postSlug''"
  by (simp_all add: reviewsOptions_def)

lemma store_reviews_colls [simp]: "colls store_reviews ''Review'' = [review1, review2]"
  by (simp add: store_reviews_def)

lemma slug_fields [simp]:
  "getf e1 ''slug'' = VUndefined" "getf e1_no_slugs ''slug'' = VMany []"
  "getf review1 ''postSlug'' = VUndefined" "getf review2 ''postSlug'' = VUndefined"
  by (simp_all add: getf_def e1_def e1_no_slugs_def review1_def review2_def)

lemma reviews_filter_e1:
  "getReferenceFilter reviewService ''reviews'' e1 (Some FEmpty) =
     Inr (Some (FField ''postSlug'' (CEq VUndefined)))"
  by (simp add: getReferenceFilter_virtual [OF reviewService_reviews(1,2)]
      getVirtualReferenceFilter_def mergeFilter_def)

theorem empty_foreign_key_still_queries_witness:
  "getReferenceModel postService ''tags'' = Inr ''Tag''
   \<and> isReferencePath postService ''tags'' \<and> getf (dto_doc (Dto 0 e1)) ''tags'' = VMany []
   \<and> countRelations postService idAssembler ''tags'' (One (Dto 0 e1)) FEmpty store0 =
       (Inr (Single 0), called (OpCount ''Tag'') store0)
   \<and> aggregateRelations postService idAssembler countEnv ''tags'' (One (Dto 0 e1)) FEmpty
         [(COUNT, ''_id'')] store0 =
       (Inr (Single []), called (OpAggregate ''Tag'') store0)
   \<and> getReferenceModel reviewService ''reviews'' = Inr ''Review''
   \<and> \<not> isReferencePath reviewService ''reviews''
   \<and> schema_virtualpath reviewService ''reviews'' = Some \<lparr>voptions = Some reviewsOptions\<rparr>
   \<and> getf (dto_doc (Dto 0 e1_no_slugs)) (localField reviewsOptions) = VMany []
   \<and> countRelations reviewService idAssembler ''reviews'' (One (Dto 0 e1_no_slugs)) FEmpty
         store_reviews =
       (Inr (Single 0), called (OpCount ''Review'') store_reviews)
   \<and> aggregateRelations reviewService idAssembler countEnv ''reviews'' (One (Dto 0 e1_no_slugs))
         FEmpty [(COUNT, ''_id'')] store_reviews =
       (Inr (Single []), called (OpAggregate ''Review'') store_reviews)
   \<and> getf (dto_doc (Dto 0 e1)) (localField reviewsOptions) = VUndefined
   \<and> countRelations reviewService idAssembler ''reviews'' (One (Dto 0 e1)) FEmpty store_reviews =
       (Inr (Single 2), called (OpCount ''Review'') store_reviews)
   \<and> aggregateRelations reviewService idAssembler countEnv ''reviews'' (One (Dto 0 e1)) FEmpty
         [(COUNT, ''_id'')] store_reviews =
       (Inr (Single [(COUNT, [(''count'', 2)])]), called (OpAggregate ''Review'') store_reviews)"
proof -
  have t1: "getReferenceModel postService ''tags'' = Inr ''Tag''" by (rule postService_models)
  have t2: "isReferencePath postService ''tags''" by (rule postService_paths)
  have t3: "getf (dto_doc (Dto 0 e1)) ''tags'' = VMany []" by simp
  have r1: "getReferenceModel reviewService ''reviews'' = Inr ''Review''"
    by (rule reviewService_reviews)
  have r2: "\<not> isReferencePath reviewService ''reviews''" by (rule reviewService_reviews)
  have r3: "schema_virtualpath reviewService ''reviews'' = Some \<lparr>voptions = Some reviewsOptions\<rparr>"
    by (rule reviewService_reviews)
  have r4: "voptions \<lparr>voptions = Some reviewsOptions\<rparr> = Some reviewsOptions" by simp
  have r5: "getf (dto_doc (Dto 0 e1_no_slugs)) (localField reviewsOptions) = VMany []" by simp
  have r6: "getf (dto_doc (Dto 0 e1)) (localField reviewsOptions) = VUndefined" by simp
  note direct = empty_foreign_key_still_queries [OF t1, where d = "Dto 0 e1"
      and vt = "\<lparr>voptions = Some reviewsOptions\<rparr>" and vo = reviewsOptions and asm = idAssembler
      and f = FEmpty and s = store0 and env = countEnv and aq = "[(COUNT, ''_id'')]" and fo = None]
  note empty = empty_foreign_key_still_queries [OF r1, where d = "Dto 0 e1_no_slugs"
      and vt = "\<lparr>voptions = Some reviewsOptions\<rparr>" and vo = reviewsOptions and asm = idAssembler
      and f = FEmpty and s = store_reviews and env = countEnv and aq = "[(COUNT, ''_id'')]"
      and fo = None]
  note absent = empty_foreign_key_still_queries [OF r1, where d = "Dto 0 e1"
      and vt = "\<lparr>voptions = Some reviewsOptions\<rparr>" and vo = reviewsOptions and asm = idAssembler
      and f = FEmpty and s = store_reviews and env = countEnv and aq = "[(COUNT, ''_id'')]"
      and fo = None]
  have c1: "countRelations postService idAssembler ''tags'' (One (Dto 0 e1)) FEmpty store0 =
       (Inr (Single 0), called (OpCount ''Tag'') store0)
     \<and> aggregateRelations postService idAssembler countEnv ''tags'' (One (Dto 0 e1)) FEmpty
         [(COUNT, ''_id'')] store0 =
       (Inr (Single []), called (OpAggregate ''Tag'') store0)"
    using direct t2 t3 by simp
  have c2: "countRelations reviewService idAssembler ''reviews'' (One (Dto 0 e1_no_slugs)) FEmpty
         store_reviews =
       (Inr (Single 0), called (OpCount ''Review'') store_reviews)
     \<and> aggregateRelations reviewService idAssembler countEnv ''reviews'' (One (Dto 0 e1_no_slugs))
         FEmpty [(COUNT, ''_id'')] store_reviews =
       (Inr (Single []), called (OpAggregate ''Review'') store_reviews)"
    using empty r2 r3 r4 r5 by simp
  have c3: "countRelations reviewService idAssembler ''reviews'' (One (Dto 0 e1)) FEmpty store_reviews =
       (Inr (Single 2), called (OpCount ''Review'') store_reviews)
     \<and> aggregateRelations reviewService idAssembler countEnv ''reviews'' (One (Dto 0 e1)) FEmpty
         [(COUNT, ''_id'')] store_reviews =
       (Inr (Single [(COUNT, [(''count'', 2)])]), called (OpAggregate ''Review'') store_reviews)"
    using absent r2 r3 r4 r6 by (simp add: passes_def)
  show ?thesis
    using t1 t2 t3 r1 r2 r3 r5 r6 c1 c2 c3 by simp
qed

text \<open>
  The entity \<^verbatim>\<open>E1\<close> has an empty \<^verbatim>\<open>tags\<close> array, and countRelations and
  aggregateRelations each query the collection \<^verbatim>\<open>Tag\<close> once: these reads are not done
  without a query. \<^verbatim>\<open>E1\<close> has no \<^verbatim>\<open>slug\<close> either, and on the virtual lookup
  \<^verbatim>\<open>reviews\<close> the two reads return the count 2 and a non-empty aggregate: not 0 and the
  empty response.
\<close>

theorem empty_foreign_key_counterexample:
  "getf e1 ''tags'' = VMany [] \<and> trace store0 = []
   \<and> trace (snd (countRelations postService idAssembler ''tags'' (One (Dto 0 e1)) FEmpty store0)) =
       [OpCount ''Tag'']
   \<and> trace (snd (aggregateRelations postService idAssembler countEnv ''tags'' (One (Dto 0 e1)) FEmpty
         [(COUNT, ''_id'')] store0)) = [OpAggregate ''Tag'']
   \<and> getf e1 (localField reviewsOptions) = VUndefined
   \<and> countRelations reviewService idAssembler ''reviews'' (One (Dto 0 e1)) FEmpty store_reviews =
       (Inr (Single 2), called (OpCount ''Review'') store_reviews)
   \<and> aggregateRelations reviewService idAssembler countEnv ''reviews'' (One (Dto 0 e1)) FEmpty
         [(COUNT, ''_id'')] store_reviews =
       (Inr (Single [(COUNT, [(''count'', 2)])]), called (OpAggregate ''Review'') store_reviews)"
proof -
  have m: "getReferenceModel postService ''tags'' = Inr ''Tag''" by (rule postService_models)
  have rf: "getReferenceFilter postService ''tags'' (dto_doc (Dto 0 e1))
      (q_filter (convertQuery idAssembler (filter_only (Some FEmpty)))) =
      Inr (Some (FField ''_id'' (CIn [])))"
    by (simp add: tags_filter_e1)
  have t0: "trace store0 = []" by (simp add: store0_def)
  have direct: "trace (snd (countRelations postService idAssembler ''tags'' (One (Dto 0 e1)) FEmpty store0)) =
       [OpCount ''Tag'']
     \<and> trace (snd (aggregateRelations postService idAssembler countEnv ''tags'' (One (Dto 0 e1)) FEmpty
         [(COUNT, ''_id'')] store0)) = [OpAggregate ''Tag'']"
    using countRelations_resolved [OF m rf, of store0]
      aggregateRelations_resolved [OF m rf, of countEnv "[(COUNT, ''_id'')]" store0] t0
    by simp
  have vm: "getReferenceModel reviewService ''reviews'' = Inr ''Review''"
    by (rule reviewService_reviews)
  have vrf: "getReferenceFilter reviewService ''reviews'' (dto_doc (Dto 0 e1))
      (q_filter (convertQuery idAssembler (filter_only (Some FEmpty)))) =
      Inr (Some (FField ''postSlug'' (CEq VUndefined)))"
    by (simp add: reviews_filter_e1)
  have virt: "countRelations reviewService idAssembler ''reviews'' (One (Dto 0 e1)) FEmpty store_reviews =
       (Inr (Single 2), called (OpCount ''Review'') store_reviews)
     \<and> aggregateRelations reviewService idAssembler countEnv ''reviews'' (One (Dto 0 e1)) FEmpty
         [(COUNT, ''_id'')] store_reviews =
       (Inr (Single [(COUNT, [(''count'', 2)])]), called (OpAggregate ''Review'') store_reviews)"
    using countRelations_resolved [OF vm vrf, of store_reviews]
      aggregateRelations_resolved [OF vm vrf, of countEnv "[(COUNT, ''_id'')]" store_reviews]
    by (simp add: eq_holds_undefined)
  show ?thesis
    using direct virt t0 by simp
qed

theorem deleted_entity_reads_witness:
  "(isReferencePath postService ''tags'' \<or> isVirtualPath postService ''tags'')
   \<and> find (\<lambda>x. doc_id x = doc_id (dto_doc (Dto 0 e1_tagged))) (colls store_without_e1 (modelName postService)) = None
   \<and> findRelation postService idAssembler ''tags'' (One (Dto 0 e1_tagged)) None store_without_e1 =
       (Inr (Single PUndefined), called (OpFindById ''Post'') store_without_e1)
   \<and> queryRelations postService idAssembler ''tags'' (One (Dto 0 e1_tagged)) (filter_only None)
         store_without_e1 =
       (Inr (Single (PMany [])), called (OpFindById ''Post'') store_without_e1)
   \<and> getReferenceModel postService ''tags'' = Inr ''Tag''
   \<and> getReferenceFilter postService ''tags'' (dto_doc (Dto 0 e1_tagged))
         (q_filter (convertQuery idAssembler (filter_only (Some FEmpty)))) =
       Inr (Some (FField ''_id'' (CIn [Str ''t1'', Str ''t2''])))
   \<and> countRelations postService idAssembler ''tags'' (One (Dto 0 e1_tagged)) FEmpty store_without_e1 =
       (Inr (Single 2), called (OpCount ''Tag'') store_without_e1)
   \<and> aggregateRelations postService idAssembler countEnv ''tags'' (One (Dto 0 e1_tagged)) FEmpty
         [(COUNT, ''_id'')] store_without_e1 =
       (Inr (Single [(COUNT, [(''count'', 2)])]), called (OpAggregate ''Tag'') store_without_e1)"
proof -
  have h1: "isReferencePath postService ''tags'' \<or> isVirtualPath postService ''tags''"
    by (simp add: postService_paths)
  have h2: "find (\<lambda>x. doc_id x = doc_id (dto_doc (Dto 0 e1_tagged)))
      (colls store_without_e1 (modelName postService)) = None"
    by simp
  have h3: "getReferenceModel postService ''tags'' = Inr ''Tag''" by (rule postService_models)
  have h4: "getReferenceFilter postService ''tags'' (dto_doc (Dto 0 e1_tagged))
         (q_filter (convertQuery idAssembler (filter_only (Some FEmpty)))) =
       Inr (Some (FField ''_id'' (CIn [Str ''t1'', Str ''t2''])))"
    by (simp add: tags_filter_e1_tagged)
  note r = deleted_entity_reads [where svc = postService and n = "''tags''" and d = "Dto 0 e1_tagged"
      and s = store_without_e1 and asm = idAssembler and fo = None and q = "filter_only None"
      and M = "''Tag''" and f = FEmpty and rf = "FField ''_id'' (CIn [Str ''t1'', Str ''t2''])"
      and env = countEnv and aq = "[(COUNT, ''_id'')]"]
  show ?thesis
    using h1 h2 h3 h4 r by simp
qed

text \<open>
  With \<^verbatim>\<open>E1\<close> deleted from the primary collection, countRelations and aggregateRelations
  on the entity object that still lists \<^verbatim>\<open>t1\<close> and \<^verbatim>\<open>t2\<close> return the count 2 and a
  non-empty aggregate: not the empty results.
\<close>

theorem deleted_entity_counterexample:
  "colls store_without_e1 ''Post'' = []
   \<and> countRelations postService idAssembler ''tags'' (One (Dto 0 e1_tagged)) FEmpty store_without_e1 =
       (Inr (Single 2), called (OpCount ''Tag'') store_without_e1)
   \<and> aggregateRelations postService idAssembler countEnv ''tags'' (One (Dto 0 e1_tagged)) FEmpty
         [(COUNT, ''_id'')] store_without_e1 =
       (Inr (Single [(COUNT, [(''count'', 2)])]), called (OpAggregate ''Tag'') store_without_e1)"
proof -
  have m: "getReferenceModel postService ''tags'' = Inr ''Tag''" by (rule postService_models)
  have rf: "getReferenceFilter postService ''tags'' (dto_doc (Dto 0 e1_tagged))
         (q_filter (convertQuery idAssembler (filter_only (Some FEmpty)))) =
       Inr (Some (FField ''_id'' (CIn [Str ''t1'', Str ''t2''])))"
    by (simp add: tags_filter_e1_tagged)
  show ?thesis
    using countRelations_resolved [OF m rf, of store_without_e1]
      aggregateRelations_resolved [OF m rf, of countEnv "[(COUNT, ''_id'')]" store_without_e1]
    by simp
qed

section \<open>Batched reads\<close>

lemma find_docs_cong: "colls s = colls t \<Longrightarrow> find_docs s M q opts = find_docs t M q opts"
  by (simp add: find_docs_def)

lemma populate_colls: "colls (snd (populate svc doc path m opts s)) = colls s"
  by (simp add: populate_def split: option.splits val.splits)

lemma populate_cong:
  "colls s = colls t \<Longrightarrow> fst (populate svc doc path m opts s) = fst (populate svc doc path m opts t)"
  by (simp add: populate_def find_docs_cong [of s t] split: option.splits val.splits)

lemma findRelation_single_colls: "colls (snd (findRelation_single svc asm n d fo s)) = colls s"
  by (simp add: findRelation_single_def findRelation_body_def findById_def case_prod_unfold
      populate_colls split: sum.splits option.splits)

lemma findRelation_single_cong:
  assumes "colls s = colls t"
  shows "fst (findRelation_single svc asm n d fo s) = fst (findRelation_single svc asm n d fo t)"
proof -
  have p: "\<And>doc m. fst (populate svc doc n m no_options (called (OpFindById (modelName svc)) s)) =
      fst (populate svc doc n m no_options (called (OpFindById (modelName svc)) t))"
    using assms by (intro populate_cong) simp
  show ?thesis
    using assms
    by (simp add: findRelation_single_def findRelation_body_def findById_def case_prod_unfold p
        split: sum.splits option.splits)
qed

lemma queryRelations_single_colls: "colls (snd (queryRelations_single svc asm n d q s)) = colls s"
  by (simp add: queryRelations_single_def queryRelations_body_def findById_def case_prod_unfold
      populate_colls split: sum.splits option.splits)

lemma queryRelations_single_cong:
  assumes "colls s = colls t"
  shows "fst (queryRelations_single svc asm n d q s) = fst (queryRelations_single svc asm n d q t)"
proof -
  have p: "\<And>doc m opts. fst (populate svc doc n m opts (called (OpFindById (modelName svc)) s)) =
      fst (populate svc doc n m opts (called (OpFindById (modelName svc)) t))"
    using assms by (intro populate_cong) simp
  show ?thesis
    using assms
    by (simp add: queryRelations_single_def queryRelations_body_def findById_def case_prod_unfold p
        split: sum.splits option.splits)
qed

lemma aggregateRelations_single_colls:
  "colls (snd (aggregateRelations_single svc asm env n d f aq s)) = colls s"
  by (auto simp: aggregateRelations_single_def aggregateRelations_body_def aggregateExec_def
      buildAggregateQuery_def split: sum.splits option.splits prod.splits list.splits)

lemma aggregateRelations_single_cong:
  "colls s = colls t \<Longrightarrow>
   fst (aggregateRelations_single svc asm env n d f aq s) =
   fst (aggregateRelations_single svc asm env n d f aq t)"
  by (auto simp: aggregateRelations_single_def aggregateRelations_body_def aggregateExec_def
      buildAggregateQuery_def split: sum.splits option.splits prod.splits list.splits)

lemma countRelations_single_colls: "colls (snd (countRelations_single svc asm n d f s)) = colls s"
  by (auto simp: countRelations_single_def countRelations_body_def countDocs_def
      split: sum.splits option.splits prod.splits)

lemma countRelations_single_cong:
  "colls s = colls t \<Longrightarrow>
   fst (countRelations_single svc asm n d f s) = fst (countRelations_single svc asm n d f t)"
  by (auto simp: countRelations_single_def countRelations_body_def countDocs_def
      split: sum.splits option.splits prod.splits)

lemma reduce_map_reads:
  assumes pres: "\<And>d s. colls (snd (f d s)) = colls s"
    and dep: "\<And>d s t. colls s = colls t \<Longrightarrow> fst (f d s) = fst (f d t)"
    and ok: "\<And>d. d \<in> set ds \<Longrightarrow> fst (f d s0) = Inr (g d)"
    and same: "colls s = colls s0"
  shows "fst (reduce_map f ds m s) = Inr (foldl (\<lambda>m d. map_set m d (g d)) m ds)"
  using ok same
proof (induction ds arbitrary: m s)
  case Nil
  then show ?case by simp
next
  case (Cons d ds)
  obtain r s1 where fd: "f d s = (r, s1)" by (cases "f d s")
  have "fst (f d s) = fst (f d s0)" using Cons.prems(2) by (rule dep)
  then have r: "r = Inr (g d)" using fd Cons.prems(1) [of d] by simp
  have "colls s1 = colls s" using pres [of d s] fd by simp
  then have s1: "colls s1 = colls s0" using Cons.prems(2) by simp
  have "fst (reduce_map f ds (map_set m d (g d)) s1) =
      Inr (foldl (\<lambda>m d. map_set m d (g d)) (map_set m d (g d)) ds)"
    using Cons.prems(1) s1 by (intro Cons.IH) simp_all
  then show ?case using fd r by simp
qed

lemma map_set_absent:
  "dto_ref k \<notin> dto_ref ` set ks \<Longrightarrow>
   map_set (map (\<lambda>d. (d, g d)) ks) k v = map (\<lambda>d. (d, g d)) ks @ [(k, v)]"
  by (induction ks) auto

lemma map_set_present:
  "dto_ref k \<in> dto_ref ` set ks \<Longrightarrow> \<forall>a \<in> set ks. dto_ref a = dto_ref k \<longrightarrow> a = k \<Longrightarrow>
   map_set (map (\<lambda>d. (d, g d)) ks) k (g k) = map (\<lambda>d. (d, g d)) ks"
  by (induction ks) auto

lemma first_occurrences_filter_filter:
  "filter (\<lambda>x. dto_ref x \<noteq> r) (filter (\<lambda>x. dto_ref x \<notin> A) ds) =
   filter (\<lambda>x. dto_ref x \<notin> insert r A) ds"
  by (induction ds) auto

lemma foldl_map_set:
  assumes "\<forall>a \<in> set ks \<union> set ds. \<forall>b \<in> set ks \<union> set ds. dto_ref a = dto_ref b \<longrightarrow> a = b"
  shows "foldl (\<lambda>m d. map_set m d (g d)) (map (\<lambda>d. (d, g d)) ks) ds =
         map (\<lambda>d. (d, g d)) (ks @ first_occurrences (filter (\<lambda>x. dto_ref x \<notin> dto_ref ` set ks) ds))"
  using assms
proof (induction ds arbitrary: ks)
  case Nil
  then show ?case by simp
next
  case (Cons d ds)
  show ?case
  proof (cases "dto_ref d \<in> dto_ref ` set ks")
    case True
    have "\<forall>a \<in> set ks. dto_ref a = dto_ref d \<longrightarrow> a = d" using Cons.prems by simp
    then have step: "map_set (map (\<lambda>d. (d, g d)) ks) d (g d) = map (\<lambda>d. (d, g d)) ks"
      using True by (intro map_set_present)
    have cons: "\<forall>a \<in> set ks \<union> set ds. \<forall>b \<in> set ks \<union> set ds. dto_ref a = dto_ref b \<longrightarrow> a = b"
      using Cons.prems by simp
    show ?thesis
      using Cons.IH [OF cons] True by (simp add: step)
  next
    case False
    have step: "map_set (map (\<lambda>d. (d, g d)) ks) d (g d) = map (\<lambda>d. (d, g d)) (ks @ [d])"
      using False by (simp add: map_set_absent)
    have cons: "\<forall>a \<in> set (ks @ [d]) \<union> set ds. \<forall>b \<in> set (ks @ [d]) \<union> set ds.
        dto_ref a = dto_ref b \<longrightarrow> a = b"
      using Cons.prems by simp
    have refs: "dto_ref ` set (ks @ [d]) = insert (dto_ref d) (dto_ref ` set ks)" by simp
    have "foldl (\<lambda>m d. map_set m d (g d)) (map (\<lambda>d. (d, g d)) ks) (d # ds) =
        foldl (\<lambda>m d. map_set m d (g d)) (map (\<lambda>d. (d, g d)) (ks @ [d])) ds"
      by (simp only: foldl.simps step)
    also have "\<dots> = map (\<lambda>d. (d, g d))
        ((ks @ [d]) @ first_occurrences (filter (\<lambda>x. dto_ref x \<notin> dto_ref ` set (ks @ [d])) ds))"
      by (rule Cons.IH [OF cons])
    also have "\<dots> = map (\<lambda>d. (d, g d))
        (ks @ first_occurrences (filter (\<lambda>x. dto_ref x \<notin> dto_ref ` set ks) (d # ds)))"
      using False by (simp only: refs) (simp add: first_occurrences_filter_filter conj_commute)
    finally show ?thesis .
  qed
qed

lemma first_occurrences_distinct:
  "distinct (map dto_ref ds) \<Longrightarrow> first_occurrences ds = ds"
proof (induction ds)
  case Nil
  then show ?case by simp
next
  case (Cons d ds)
  then have "filter (\<lambda>x. dto_ref x \<noteq> dto_ref d) ds = ds"
    by (auto simp: filter_id_conv image_iff)
  with Cons show ?case by simp
qed

lemma batch_of_reads:
  assumes pres: "\<And>d s. colls (snd (f d s)) = colls s"
    and dep: "\<And>d s t. colls s = colls t \<Longrightarrow> fst (f d s) = fst (f d t)"
    and ok: "\<And>d. d \<in> set dtos \<Longrightarrow> fst (f d s) = Inr (g d)"
    and cons: "\<forall>a \<in> set dtos. \<forall>b \<in> set dtos. dto_ref a = dto_ref b \<longrightarrow> a = b"
  shows "fst (reduce_map f dtos [] s) = Inr (map (\<lambda>d. (d, g d)) (first_occurrences dtos))"
proof -
  have "fst (reduce_map f dtos [] s) = Inr (foldl (\<lambda>m d. map_set m d (g d)) [] dtos)"
    by (rule reduce_map_reads [where s0 = s, OF pres dep ok refl])
  also have "foldl (\<lambda>m d. map_set m d (g d)) [] dtos =
      map (\<lambda>d. (d, g d)) ([] @ first_occurrences (filter (\<lambda>x. dto_ref x \<notin> dto_ref ` set []) dtos))"
    using foldl_map_set [of "[]" dtos g] cons by simp
  finally show ?thesis by simp
qed

lemma single_forms:
  "findRelation svc asm n (One d) fo s =
     apfst (map_sum id Single) (findRelation_single svc asm n (dto_doc d) fo s)"
  "queryRelations svc asm n (One d) q s =
     apfst (map_sum id Single) (queryRelations_single svc asm n (dto_doc d) q s)"
  "aggregateRelations svc asm env n (One d) f aq s =
     apfst (map_sum id Single) (aggregateRelations_single svc asm env n (dto_doc d) f aq s)"
  "countRelations svc asm n (One d) f s =
     apfst (map_sum id Single) (countRelations_single svc asm n (dto_doc d) f s)"
proof -
  show "findRelation svc asm n (One d) fo s =
     apfst (map_sum id Single) (findRelation_single svc asm n (dto_doc d) fo s)"
    by (cases "checkForReference svc ''FindRelation'' n True")
      (simp_all add: findRelation_def findRelation_single_def)
  show "queryRelations svc asm n (One d) q s =
     apfst (map_sum id Single) (queryRelations_single svc asm n (dto_doc d) q s)"
    by (cases "checkForReference svc ''QueryRelations'' n True")
      (simp_all add: queryRelations_def queryRelations_single_def)
  show "aggregateRelations svc asm env n (One d) f aq s =
     apfst (map_sum id Single) (aggregateRelations_single svc asm env n (dto_doc d) f aq s)"
    by (cases "checkForReference svc ''AggregateRelations'' n True"; cases "getReferenceModel svc n")
      (simp_all add: aggregateRelations_def aggregateRelations_single_def)
  show "countRelations svc asm n (One d) f s =
     apfst (map_sum id Single) (countRelations_single svc asm n (dto_doc d) f s)"
    by (cases "checkForReference svc ''CountRelations'' n True")
      (simp_all add: countRelations_def countRelations_single_def)
qed

lemma single_result:
  "fst (apfst (map_sum id Single) r) = Inr (Single v) \<Longrightarrow> fst r = Inr v"
  by (cases r; cases "fst r") auto

text \<open>
  Claim C7. Let the entities of the input list be objects with one content for each
  reference. If the single-entity form of a read operation returns \<open>r d\<close> for each entity
  \<open>d\<close> of the list, all from the same state of the store, then the batched form returns the
  mapping that has, in the order of their first occurrence in the input, one entry for each
  entity, with the value \<open>r d\<close> (empty results included). When the entities of the list are
  pairwise different objects the keys are the input list itself. The relation must be
  declared, and for aggregateRelations its target model known, as the batched form checks
  both before it looks at the list.
\<close>

theorem batched_reads_map_each_entity:
  assumes "\<forall>a \<in> set dtos. \<forall>b \<in> set dtos. dto_ref a = dto_ref b \<longrightarrow> a = b"
  shows "((isReferencePath svc n \<or> isVirtualPath svc n)
          \<and> (\<forall>d \<in> set dtos. fst (findRelation svc asm n (One d) fo s) = Inr (Single (r1 d))) \<longrightarrow>
          fst (findRelation svc asm n (Many dtos) fo s) =
            Inr (Mapped (map (\<lambda>d. (d, r1 d)) (first_occurrences dtos))))
       \<and> ((isReferencePath svc n \<or> isVirtualPath svc n)
          \<and> (\<forall>d \<in> set dtos. fst (queryRelations svc asm n (One d) q s) = Inr (Single (r2 d))) \<longrightarrow>
          fst (queryRelations svc asm n (Many dtos) q s) =
            Inr (Mapped (map (\<lambda>d. (d, r2 d)) (first_occurrences dtos))))
       \<and> (getReferenceModel svc n = Inr M
          \<and> (\<forall>d \<in> set dtos. fst (aggregateRelations svc asm env n (One d) f aq s) = Inr (Single (r3 d))) \<longrightarrow>
          fst (aggregateRelations svc asm env n (Many dtos) f aq s) =
            Inr (Mapped (map (\<lambda>d. (d, r3 d)) (first_occurrences dtos))))
       \<and> ((isReferencePath svc n \<or> isVirtualPath svc n)
          \<and> (\<forall>d \<in> set dtos. fst (countRelations svc asm n (One d) f s) = Inr (Single (r4 d))) \<longrightarrow>
          fst (countRelations svc asm n (Many dtos) f s) =
            Inr (Mapped (map (\<lambda>d. (d, r4 d)) (first_occurrences dtos))))
       \<and> (distinct (map dto_ref dtos) \<longrightarrow> first_occurrences dtos = dtos)"
proof (intro conjI impI)
  assume a: "(isReferencePath svc n \<or> isVirtualPath svc n)
          \<and> (\<forall>d \<in> set dtos. fst (findRelation svc asm n (One d) fo s) = Inr (Single (r1 d)))"
  then have c: "checkForReference svc ''FindRelation'' n True = Inr ()"
    by (simp add: checkForReference_declared)
  have ok: "\<And>d. d \<in> set dtos \<Longrightarrow> fst (findRelation_single svc asm n (dto_doc d) fo s) = Inr (r1 d)"
  proof -
    fix d
    assume "d \<in> set dtos"
    with a have "fst (findRelation svc asm n (One d) fo s) = Inr (Single (r1 d))" by simp
    then show "fst (findRelation_single svc asm n (dto_doc d) fo s) = Inr (r1 d)"
      unfolding single_forms(1) by (rule single_result)
  qed
  have "fst (reduce_map (\<lambda>cur. findRelation_single svc asm n (dto_doc cur) fo) dtos [] s) =
      Inr (map (\<lambda>d. (d, r1 d)) (first_occurrences dtos))"
  proof (rule batch_of_reads [where g = r1])
    show "\<And>d s. colls (snd (findRelation_single svc asm n (dto_doc d) fo s)) = colls s"
      by (rule findRelation_single_colls)
    show "\<And>d s t. colls s = colls t \<Longrightarrow>
        fst (findRelation_single svc asm n (dto_doc d) fo s) =
        fst (findRelation_single svc asm n (dto_doc d) fo t)"
      by (rule findRelation_single_cong)
    show "\<And>d. d \<in> set dtos \<Longrightarrow> fst (findRelation_single svc asm n (dto_doc d) fo s) = Inr (r1 d)"
      by (rule ok)
    show "\<forall>a \<in> set dtos. \<forall>b \<in> set dtos. dto_ref a = dto_ref b \<longrightarrow> a = b"
      by (rule assms)
  qed
  then show "fst (findRelation svc asm n (Many dtos) fo s) =
      Inr (Mapped (map (\<lambda>d. (d, r1 d)) (first_occurrences dtos)))"
    by (simp add: findRelation_def c)
next
  assume a: "(isReferencePath svc n \<or> isVirtualPath svc n)
          \<and> (\<forall>d \<in> set dtos. fst (queryRelations svc asm n (One d) q s) = Inr (Single (r2 d)))"
  then have c: "checkForReference svc ''QueryRelations'' n True = Inr ()"
    by (simp add: checkForReference_declared)
  have ok: "\<And>d. d \<in> set dtos \<Longrightarrow> fst (queryRelations_single svc asm n (dto_doc d) q s) = Inr (r2 d)"
  proof -
    fix d
    assume "d \<in> set dtos"
    with a have "fst (queryRelations svc asm n (One d) q s) = Inr (Single (r2 d))" by simp
    then show "fst (queryRelations_single svc asm n (dto_doc d) q s) = Inr (r2 d)"
      unfolding single_forms(2) by (rule single_result)
  qed
  have "fst (reduce_map (\<lambda>entity. queryRelations_single svc asm n (dto_doc entity) q) dtos [] s) =
      Inr (map (\<lambda>d. (d, r2 d)) (first_occurrences dtos))"
  proof (rule batch_of_reads [where g = r2])
    show "\<And>d s. colls (snd (queryRelations_single svc asm n (dto_doc d) q s)) = colls s"
      by (rule queryRelations_single_colls)
    show "\<And>d s t. colls s = colls t \<Longrightarrow>
        fst (queryRelations_single svc asm n (dto_doc d) q s) =
        fst (queryRelations_single svc asm n (dto_doc d) q t)"
      by (rule queryRelations_single_cong)
    show "\<And>d. d \<in> set dtos \<Longrightarrow> fst (queryRelations_single svc asm n (dto_doc d) q s) = Inr (r2 d)"
      by (rule ok)
    show "\<forall>a \<in> set dtos. \<forall>b \<in> set dtos. dto_ref a = dto_ref b \<longrightarrow> a = b"
      by (rule assms)
  qed
  then show "fst (queryRelations svc asm n (Many dtos) q s) =
      Inr (Mapped (map (\<lambda>d. (d, r2 d)) (first_occurrences dtos)))"
    by (simp add: queryRelations_def c)
next
  assume a: "getReferenceModel svc n = Inr M
          \<and> (\<forall>d \<in> set dtos. fst (aggregateRelations svc asm env n (One d) f aq s) = Inr (Single (r3 d)))"
  then have c: "checkForReference svc ''AggregateRelations'' n True = Inr ()"
    by (simp add: checkForReference_declared getReferenceModel_declared)
  have ok: "\<And>d. d \<in> set dtos \<Longrightarrow> fst (aggregateRelations_single svc asm env n (dto_doc d) f aq s) = Inr (r3 d)"
  proof -
    fix d
    assume "d \<in> set dtos"
    with a have "fst (aggregateRelations svc asm env n (One d) f aq s) = Inr (Single (r3 d))" by simp
    then show "fst (aggregateRelations_single svc asm env n (dto_doc d) f aq s) = Inr (r3 d)"
      unfolding single_forms(3) by (rule single_result)
  qed
  have "fst (reduce_map (\<lambda>entity. aggregateRelations_single svc asm env n (dto_doc entity) f aq) dtos [] s) =
      Inr (map (\<lambda>d. (d, r3 d)) (first_occurrences dtos))"
  proof (rule batch_of_reads [where g = r3])
    show "\<And>d s. colls (snd (aggregateRelations_single svc asm env n (dto_doc d) f aq s)) = colls s"
      by (rule aggregateRelations_single_colls)
    show "\<And>d s t. colls s = colls t \<Longrightarrow>
        fst (aggregateRelations_single svc asm env n (dto_doc d) f aq s) =
        fst (aggregateRelations_single svc asm env n (dto_doc d) f aq t)"
      by (rule aggregateRelations_single_cong)
    show "\<And>d. d \<in> set dtos \<Longrightarrow> fst (aggregateRelations_single svc asm env n (dto_doc d) f aq s) = Inr (r3 d)"
      by (rule ok)
    show "\<forall>a \<in> set dtos. \<forall>b \<in> set dtos. dto_ref a = dto_ref b \<longrightarrow> a = b"
      by (rule assms)
  qed
  then show "fst (aggregateRelations svc asm env n (Many dtos) f aq s) =
      Inr (Mapped (map (\<lambda>d. (d, r3 d)) (first_occurrences dtos)))"
    using a by (simp add: aggregateRelations_def c)
next
  assume a: "(isReferencePath svc n \<or> isVirtualPath svc n)
          \<and> (\<forall>d \<in> set dtos. fst (countRelations svc asm n (One d) f s) = Inr (Single (r4 d)))"
  then have c: "checkForReference svc ''CountRelations'' n True = Inr ()"
    by (simp add: checkForReference_declared)
  have ok: "\<And>d. d \<in> set dtos \<Longrightarrow> fst (countRelations_single svc asm n (dto_doc d) f s) = Inr (r4 d)"
  proof -
    fix d
    assume "d \<in> set dtos"
    with a have "fst (countRelations svc asm n (One d) f s) = Inr (Single (r4 d))" by simp
    then show "fst (countRelations_single svc asm n (dto_doc d) f s) = Inr (r4 d)"
      unfolding single_forms(4) by (rule single_result)
  qed
  have "fst (reduce_map (\<lambda>entity. countRelations_single svc asm n (dto_doc entity) f) dtos [] s) =
      Inr (map (\<lambda>d. (d, r4 d)) (first_occurrences dtos))"
  proof (rule batch_of_reads [where g = r4])
    show "\<And>d s. colls (snd (countRelations_single svc asm n (dto_doc d) f s)) = colls s"
      by (rule countRelations_single_colls)
    show "\<And>d s t. colls s = colls t \<Longrightarrow>
        fst (countRelations_single svc asm n (dto_doc d) f s) =
        fst (countRelations_single svc asm n (dto_doc d) f t)"
      by (rule countRelations_single_cong)
    show "\<And>d. d \<in> set dtos \<Longrightarrow> fst (countRelations_single svc asm n (dto_doc d) f s) = Inr (r4 d)"
      by (rule ok)
    show "\<forall>a \<in> set dtos. \<forall>b \<in> set dtos. dto_ref a = dto_ref b \<longrightarrow> a = b"
      by (rule assms)
  qed
  then show "fst (countRelations svc asm n (Many dtos) f s) =
      Inr (Mapped (map (\<lambda>d. (d, r4 d)) (first_occurrences dtos)))"
    by (simp add: countRelations_def c)
next
  assume "distinct (map dto_ref dtos)"
  then show "first_occurrences dtos = dtos" by (rule first_occurrences_distinct)
qed

lemma postService_tags_type:
  "schema_path postService ''tags'' = Some \<lparr>embedded_ref = Some ''Tag'', options_ref = None\<rparr>"
  by (simp add: schema_path_def postService_def)

lemma find_e1_tags:
  "doc_id d = Str ''E1'' \<Longrightarrow>
   fst (findRelation postService idAssembler ''tags'' (One (Dto k d)) None store0) =
     Inr (Single (PMany []))"
  by (simp add: findRelation_def checkForReference_path postService_paths findRelation_body_def
      findById_def postService_models populate_def postService_tags_type assign_ids_def
      no_options_def)

lemma query_e1_tags:
  "doc_id d = Str ''E1'' \<Longrightarrow>
   fst (queryRelations postService idAssembler ''tags'' (One (Dto k d)) (filter_only None) store0) =
     Inr (Single (PMany []))"
  by (simp add: queryRelations_def checkForReference_path postService_paths queryRelations_body_def
      findById_def populate_def postService_tags_type assign_ids_def buildQuery_def filter_only_def)

theorem batched_reads_map_each_entity_witness:
  "fst (findRelation postService idAssembler ''tags'' (One (Dto 0 e1)) None store0) =
     Inr (Single (PMany []))
   \<and> fst (findRelation postService idAssembler ''tags'' (One (Dto 1 e1_tagged)) None store0) =
     Inr (Single (PMany []))
   \<and> fst (findRelation postService idAssembler ''tags''
            (Many [Dto 0 e1, Dto 1 e1_tagged, Dto 0 e1]) None store0) =
     Inr (Mapped [(Dto 0 e1, PMany []), (Dto 1 e1_tagged, PMany [])])
   \<and> fst (queryRelations postService idAssembler ''tags''
            (Many [Dto 0 e1, Dto 1 e1_tagged, Dto 0 e1]) (filter_only None) store0) =
     Inr (Mapped [(Dto 0 e1, PMany []), (Dto 1 e1_tagged, PMany [])])
   \<and> fst (countRelations postService idAssembler ''tags'' (One (Dto 0 e1)) FEmpty store0) =
     Inr (Single 0)
   \<and> fst (countRelations postService idAssembler ''tags'' (One (Dto 1 e1_tagged)) FEmpty store0) =
     Inr (Single 2)
   \<and> fst (countRelations postService idAssembler ''tags''
            (Many [Dto 0 e1, Dto 1 e1_tagged, Dto 0 e1]) FEmpty store0) =
     Inr (Mapped [(Dto 0 e1, 0), (Dto 1 e1_tagged, 2)])
   \<and> fst (aggregateRelations postService idAssembler countEnv ''tags''
            (Many [Dto 0 e1, Dto 1 e1_tagged, Dto 0 e1]) FEmpty [(COUNT, ''_id'')] store0) =
     Inr (Mapped [(Dto 0 e1, []), (Dto 1 e1_tagged, [(COUNT, [(''count'', 2)])])])
   \<and> distinct (map dto_ref [Dto 0 e1, Dto 1 e1_tagged])
   \<and> first_occurrences [Dto 0 e1, Dto 1 e1_tagged] = [Dto 0 e1, Dto 1 e1_tagged]"
proof -
  let ?dtos = "[Dto 0 e1, Dto 1 e1_tagged, Dto 0 e1]"
  have cons: "\<forall>a \<in> set ?dtos. \<forall>b \<in> set ?dtos. dto_ref a = dto_ref b \<longrightarrow> a = b" by simp
  have cons2: "\<forall>a \<in> set [Dto 0 e1, Dto 1 e1_tagged]. \<forall>b \<in> set [Dto 0 e1, Dto 1 e1_tagged].
      dto_ref a = dto_ref b \<longrightarrow> a = b" by simp
  have decl: "isReferencePath postService ''tags'' \<or> isVirtualPath postService ''tags''"
    by (simp add: postService_paths)
  have m: "getReferenceModel postService ''tags'' = Inr ''Tag''" by (rule postService_models)
  have f0: "fst (findRelation postService idAssembler ''tags'' (One (Dto 0 e1)) None store0) =
     Inr (Single (PMany []))" by (simp add: find_e1_tags)
  have f1: "fst (findRelation postService idAssembler ''tags'' (One (Dto 1 e1_tagged)) None store0) =
     Inr (Single (PMany []))" by (simp add: find_e1_tags)
  have q0: "fst (queryRelations postService idAssembler ''tags'' (One (Dto 0 e1)) (filter_only None) store0) =
     Inr (Single (PMany []))" by (simp add: query_e1_tags)
  have q1: "fst (queryRelations postService idAssembler ''tags'' (One (Dto 1 e1_tagged)) (filter_only None) store0) =
     Inr (Single (PMany []))" by (simp add: query_e1_tags)
  have c0: "fst (countRelations postService idAssembler ''tags'' (One (Dto 0 e1)) FEmpty store0) =
     Inr (Single 0)"
    by (simp add: countRelations_resolved [OF m] tags_filter_e1)
  have c1: "fst (countRelations postService idAssembler ''tags'' (One (Dto 1 e1_tagged)) FEmpty store0) =
     Inr (Single 2)"
    by (simp add: countRelations_resolved [OF m] tags_filter_e1_tagged)
  have a0: "fst (aggregateRelations postService idAssembler countEnv ''tags'' (One (Dto 0 e1)) FEmpty
      [(COUNT, ''_id'')] store0) = Inr (Single [])"
    by (simp add: aggregateRelations_resolved [OF m] tags_filter_e1)
  have a1: "fst (aggregateRelations postService idAssembler countEnv ''tags'' (One (Dto 1 e1_tagged)) FEmpty
      [(COUNT, ''_id'')] store0) = Inr (Single [(COUNT, [(''count'', 2)])])"
    by (simp add: aggregateRelations_resolved [OF m] tags_filter_e1_tagged)
  note batch = batched_reads_map_each_entity [OF cons, where svc = postService and n = "''tags''"
      and asm = idAssembler and fo = None and s = store0 and q = "filter_only None"
      and env = countEnv and f = FEmpty and aq = "[(COUNT, ''_id'')]" and M = "''Tag''"
      and ?r1.0 = "\<lambda>d. PMany []" and ?r2.0 = "\<lambda>d. PMany []"
      and ?r3.0 = "\<lambda>d. if dto_ref d = 0 then [] else [(COUNT, [(''count'', 2)])]"
      and ?r4.0 = "\<lambda>d. if dto_ref d = 0 then 0 else 2"]
  note dist = batched_reads_map_each_entity [OF cons2, where svc = postService and n = "''tags''"
      and asm = idAssembler and fo = None and s = store0 and q = "filter_only None"
      and env = countEnv and f = FEmpty and aq = "[(COUNT, ''_id'')]" and M = "''Tag''"
      and ?r1.0 = "\<lambda>d. PMany []" and ?r2.0 = "\<lambda>d. PMany []"
      and ?r3.0 = "\<lambda>d. []" and ?r4.0 = "\<lambda>d. 0", THEN conjunct2, THEN conjunct2, THEN conjunct2,
      THEN conjunct2]
  have d2: "first_occurrences [Dto 0 e1, Dto 1 e1_tagged] = [Dto 0 e1, Dto 1 e1_tagged]"
    using dist by simp
  show ?thesis
    using batch decl m f0 f1 q0 q1 c0 c1 a0 a1 d2 by simp
qed

section \<open>Adding relations, then querying them\<close>

lemma update_first_some:
  "update_first q u ds = Inr (Some e, ds') \<Longrightarrow>
   \<exists>pre d0 post. ds = pre @ d0 # post \<and> ds' = pre @ e # post \<and> (\<forall>x \<in> set pre. \<not> q x)
      \<and> q d0 \<and> u d0 = Inr e"
proof (induction ds arbitrary: ds')
  case Nil
  then show ?case by simp
next
  case (Cons a ds)
  show ?case
  proof (cases "q a")
    case True
    with Cons.prems have "u a = Inr e" "ds' = e # ds"
      by (auto split: sum.splits)
    with True have "a # ds = [] @ a # ds \<and> ds' = [] @ e # ds \<and> (\<forall>x \<in> set []. \<not> q x) \<and> q a \<and> u a = Inr e"
      by simp
    then show ?thesis by blast
  next
    case False
    with Cons.prems obtain ds'' where rec: "update_first q u ds = Inr (Some e, ds'')" and eq: "ds' = a # ds''"
      by (auto split: sum.splits prod.splits)
    from Cons.IH [OF rec] obtain pre d0 post where
      p: "ds = pre @ d0 # post" "ds'' = pre @ e # post" "\<forall>x \<in> set pre. \<not> q x" "q d0" "u d0 = Inr e"
      by blast
    with False eq have "a # ds = (a # pre) @ d0 # post \<and> ds' = (a # pre) @ e # post
        \<and> (\<forall>x \<in> set (a # pre). \<not> q x) \<and> q d0 \<and> u d0 = Inr e"
      by simp
    then show ?thesis by blast
  qed
qed

lemma map_of_put: "map_of (put k v fs) k = Some v"
  by (induction fs) auto

lemma getf_put: "n \<noteq> ''_id'' \<Longrightarrow> getf (d\<lparr>doc_fields := put n v (doc_fields d)\<rparr>) n = v"
  by (simp add: getf_def map_of_put)

lemma push_result:
  assumes "apply_update (Push n ids) d0 = Inr e"
  shows "doc_id e = doc_id d0 \<and> (\<exists>xs. getf e n = VMany (xs @ ids))"
proof -
  have n: "n \<noteq> ''_id''"
    using assms by (auto simp: apply_update_def update_name_def split: if_splits)
  show ?thesis
  proof (cases "getf d0 n")
    case VUndefined
    with assms n have "e = d0\<lparr>doc_fields := put n (VMany ids) (doc_fields d0)\<rparr>"
      by (simp add: apply_update_def update_name_def)
    then have "doc_id e = doc_id d0 \<and> getf e n = VMany ([] @ ids)"
      using n by (simp add: getf_put)
    then show ?thesis by blast
  next
    case (VOne x)
    with assms n show ?thesis by (simp add: apply_update_def update_name_def)
  next
    case (VMany xs)
    with assms n have "e = d0\<lparr>doc_fields := put n (VMany (xs @ ids)) (doc_fields d0)\<rparr>"
      by (simp add: apply_update_def update_name_def)
    then have "doc_id e = doc_id d0 \<and> getf e n = VMany (xs @ ids)"
      using n by (simp add: getf_put)
    then show ?thesis by blast
  qed
qed

lemma find_after_prefix:
  "\<forall>x \<in> set pre. \<not> P x \<Longrightarrow> P e \<Longrightarrow> find P (pre @ e # post) = Some e"
  by (induction pre) auto

lemma set_sort_docs [simp]: "set (sort_docs keys ds) = set ds"
  unfolding sort_docs_def by (induction keys) (auto split: prod.splits)

lemma set_find_docs_unpaged:
  "o_limit opts = None \<Longrightarrow> o_skip opts = None \<Longrightarrow>
   set (find_docs s M qf opts) = {t \<in> set (colls s M). qf t}"
  by (simp add: find_docs_def)

lemma set_assign_ids: "set (assign_ids arr ds) = {t \<in> set ds. doc_id t \<in> set arr}"
  by (auto simp: assign_ids_def)

lemma populate_array:
  assumes "isReferencePath svc n" and "getReferenceModel svc n = Inr M"
    and "getf doc n = VMany arr"
  shows "populate svc doc n m opts s =
     (PMany (if o_sort opts = []
             then assign_ids arr (find_docs s M (\<lambda>d. doc_id d \<in> set arr \<and> m d) opts)
             else find_docs s M (\<lambda>d. doc_id d \<in> set arr \<and> m d) opts),
      called (OpPopulate M) s)"
  using assms
  by (auto simp: populate_def getReferenceModel_def isReferencePath_def split: option.splits)


lemma addRelations_success:
  assumes "isReferencePath svc n" and "getReferenceModel svc n = Inr M"
    and "addRelations svc n i ids opts s = (Inr e, s')"
  shows "\<exists>pre d0 post xs.
      colls s (modelName svc) = pre @ d0 # post
    \<and> colls s' = (colls s)(modelName svc := pre @ e # post)
    \<and> (\<forall>x \<in> set pre. doc_id x \<noteq> i \<or> \<not> passes (mro_filter opts) x)
    \<and> doc_id d0 = i \<and> doc_id e = i \<and> getf e n = VMany (xs @ ids)"
proof -
  let ?P = "modelName svc"
  let ?s1 = "called (OpCount M) s"
  have fa: "findAndUpdate svc i (mro_filter opts) (Push n ids) ?s1 = (Inr e, s')"
    using assms
    by (simp add: addRelations_def checkForReference_path getRefCount_resolved split: if_splits)
  obtain ds' where uf: "update_first (buildIdFilterQuery (VOne i) (mro_filter opts))
        (apply_update (Push n ids)) (colls s ?P) = Inr (Some e, ds')"
    and s': "s' = called (OpFindOneAndUpdate ?P) (?s1\<lparr>colls := (colls s)(?P := ds')\<rparr>)"
    using fa
    by (auto simp: findAndUpdate_def findOneAndUpdate_def split: sum.splits option.splits prod.splits)
  from update_first_some [OF uf] obtain pre d0 post where
    p: "colls s ?P = pre @ d0 # post" "ds' = pre @ e # post"
      "\<forall>x \<in> set pre. \<not> buildIdFilterQuery (VOne i) (mro_filter opts) x"
      "buildIdFilterQuery (VOne i) (mro_filter opts) d0"
      "apply_update (Push n ids) d0 = Inr e"
    by blast
  from push_result [OF p(5)] obtain xs where e: "doc_id e = doc_id d0" "getf e n = VMany (xs @ ids)"
    by blast
  have d0: "doc_id d0 = i" using p(4) by (simp add: buildIdFilterQuery_one)
  have pre: "\<forall>x \<in> set pre. doc_id x \<noteq> i \<or> \<not> passes (mro_filter opts) x"
    using p(3) by (simp add: buildIdFilterQuery_one)
  have "colls s' = (colls s)(?P := pre @ e # post)"
    using s' p(2) by simp
  with p(1) pre d0 e show ?thesis by auto
qed

text \<open>
  Claim C8, as the code has it. For a relation that is a path of the schema with target
  model \<open>M\<close>, in a primary collection with distinct ids: after a successful addRelations
  of \<open>ids\<close> to the entity \<open>i\<close>, queryRelations on that relation and entity, with a query
  that carries no paging, returns an array that contains every document of \<open>M\<close> whose id is
  among \<open>ids\<close> and which passes the filter of the query.
\<close>

theorem add_then_query_contains_added:
  assumes "isReferencePath svc n" and "getReferenceModel svc n = Inr M"
    and "addRelations svc n i ids opts s = (Inr e, s')"
    and "distinct (map doc_id (colls s (modelName svc)))"
    and "doc_id (dto_doc d) = i"
    and "q_limit (convertQuery asm q) = None" and "q_offset (convertQuery asm q) = None"
  shows "\<exists>ds. fst (queryRelations svc asm n (One d) q s') = Inr (Single (PMany ds))
           \<and> (\<forall>t \<in> set (colls s' M).
                 doc_id t \<in> set ids \<and> passes (q_filter (convertQuery asm q)) t \<longrightarrow> t \<in> set ds)"
proof -
  let ?P = "modelName svc"
  let ?cq = "convertQuery asm q"
  from addRelations_success [OF assms(1,2,3)] obtain pre d0 post xs where
    a: "colls s ?P = pre @ d0 # post" "colls s' = (colls s)(?P := pre @ e # post)"
      "doc_id d0 = i" "doc_id e = i" "getf e n = VMany (xs @ ids)"
    by blast
  have "\<forall>x \<in> set pre. doc_id x \<noteq> i"
    using assms(4) a(1,3) by (auto simp: image_iff)
  then have found: "find (\<lambda>x. doc_id x = doc_id (dto_doc d)) (colls s' ?P) = Some e"
    using a(2,4) assms(5) by (simp add: find_after_prefix)
  let ?opts = "\<lparr>o_limit = q_limit ?cq, o_skip = q_offset ?cq, o_sort = q_sorting ?cq\<rparr>"
  let ?m = "buildFilterQuery (q_filter ?cq)"
  let ?s2 = "called (OpFindById ?P) s'"
  let ?found = "find_docs ?s2 M (\<lambda>t. doc_id t \<in> set (xs @ ids) \<and> ?m t) ?opts"
  let ?ds = "if q_sorting ?cq = [] then assign_ids (xs @ ids) ?found else ?found"
  have pop: "populate svc e n ?m ?opts ?s2 = (PMany ?ds, called (OpPopulate M) ?s2)"
    using populate_array [OF assms(1,2) a(5), of ?m ?opts ?s2] by simp
  have run: "fst (queryRelations svc asm n (One d) q s') = Inr (Single (PMany ?ds))"
    using found pop
    by (simp add: queryRelations_def checkForReference_path [OF assms(1)] queryRelations_body_def
        findById_def buildQuery_def)
  have fset: "set ?found = {t \<in> set (colls s' M). doc_id t \<in> set (xs @ ids) \<and> ?m t}"
    using assms(6,7) by (simp add: set_find_docs_unpaged)
  have m: "\<And>t. ?m t = passes (q_filter ?cq) t"
    by (simp add: buildFilterQuery_def passes_def split: option.splits)
  have "\<forall>t \<in> set (colls s' M).
      doc_id t \<in> set ids \<and> passes (q_filter ?cq) t \<longrightarrow> t \<in> set ?ds"
    using fset m by (auto simp: set_assign_ids)
  with run show ?thesis by blast
qed


lemma store_tagged_colls [simp]:
  "colls store_tagged ''Post'' = [e1_tagged]" "colls store_tagged ''Tag'' = [tag1, tag2]"
  by (simp_all add: store_tagged_def)

lemma add_run_tagged:
  "addRelations postService ''tags'' (Str ''E1'') [Str ''t1'', Str ''t2''] noOpts store0 =
     (Inr e1_tagged, store_tagged)"
  by (simp add: add_run store_tagged_def)

lemma query_tagged:
  "fst (queryRelations postService idAssembler ''tags'' (One (Dto 0 e1)) q store_tagged) =
     Inr (Single (PMany
       (if q_sorting q = []
        then assign_ids [Str ''t1'', Str ''t2'']
               (find_docs (called (OpFindById ''Post'') store_tagged) ''Tag''
                  (\<lambda>d. doc_id d \<in> set [Str ''t1'', Str ''t2''] \<and> buildFilterQuery (q_filter q) d)
                  \<lparr>o_limit = q_limit q, o_skip = q_offset q, o_sort = q_sorting q\<rparr>)
        else find_docs (called (OpFindById ''Post'') store_tagged) ''Tag''
               (\<lambda>d. doc_id d \<in> set [Str ''t1'', Str ''t2''] \<and> buildFilterQuery (q_filter q) d)
               \<lparr>o_limit = q_limit q, o_skip = q_offset q, o_sort = q_sorting q\<rparr>)))"
  using populate_array [of postService "''tags''" "''Tag''" e1_tagged "[Str ''t1'', Str ''t2'']"
      "buildFilterQuery (q_filter q)" "\<lparr>o_limit = q_limit q, o_skip = q_offset q, o_sort = q_sorting q\<rparr>"
      "called (OpFindById ''Post'') store_tagged"]
  by (simp add: queryRelations_def checkForReference_path postService_paths postService_models
      queryRelations_body_def findById_def buildQuery_def)

theorem add_then_query_contains_added_witness:
  "isReferencePath postService ''tags'' \<and> getReferenceModel postService ''tags'' = Inr ''Tag''
   \<and> addRelations postService ''tags'' (Str ''E1'') [Str ''t1'', Str ''t2''] noOpts store0 =
       (Inr e1_tagged, store_tagged)
   \<and> distinct (map doc_id (colls store0 (modelName postService)))
   \<and> doc_id (dto_doc (Dto 0 e1)) = Str ''E1''
   \<and> q_limit (convertQuery idAssembler (filter_only None)) = None
   \<and> q_offset (convertQuery idAssembler (filter_only None)) = None
   \<and> (\<exists>ds. fst (queryRelations postService idAssembler ''tags'' (One (Dto 0 e1)) (filter_only None)
                  store_tagged) = Inr (Single (PMany ds))
          \<and> tag1 \<in> set ds \<and> tag2 \<in> set ds)"
proof -
  have h1: "isReferencePath postService ''tags''" by (rule postService_paths)
  have h2: "getReferenceModel postService ''tags'' = Inr ''Tag''" by (rule postService_models)
  have h3: "addRelations postService ''tags'' (Str ''E1'') [Str ''t1'', Str ''t2''] noOpts store0 =
       (Inr e1_tagged, store_tagged)" by (rule add_run_tagged)
  have h4: "distinct (map doc_id (colls store0 (modelName postService)))" by simp
  have h5: "doc_id (dto_doc (Dto 0 e1)) = Str ''E1''" by simp
  have h6: "q_limit (convertQuery idAssembler (filter_only None)) = None"
    by (simp add: filter_only_def)
  have h7: "q_offset (convertQuery idAssembler (filter_only None)) = None"
    by (simp add: filter_only_def)
  from add_then_query_contains_added [OF h1 h2 h3 h4 h5 h6 h7] obtain ds where
    r: "fst (queryRelations postService idAssembler ''tags'' (One (Dto 0 e1)) (filter_only None)
          store_tagged) = Inr (Single (PMany ds))"
    and all: "\<forall>t \<in> set (colls store_tagged ''Tag'').
        doc_id t \<in> set [Str ''t1'', Str ''t2''] \<and>
        passes (q_filter (convertQuery idAssembler (filter_only None))) t \<longrightarrow> t \<in> set ds"
    by blast
  have "tag1 \<in> set ds" using all by (simp add: passes_def)
  moreover have "tag2 \<in> set ds" using all by (simp add: passes_def)
  ultimately have "\<exists>ds. fst (queryRelations postService idAssembler ''tags'' (One (Dto 0 e1))
          (filter_only None) store_tagged) = Inr (Single (PMany ds)) \<and> tag1 \<in> set ds \<and> tag2 \<in> set ds"
    using r by blast
  then show ?thesis
    using h1 h2 h3 h4 h5 h6 h7 by simp
qed

text \<open>
  After \<^verbatim>\<open>t1\<close> and \<^verbatim>\<open>t2\<close> have been added to \<^verbatim>\<open>E1\<close>, a query with no filter and a
  page size of 1 returns \<^verbatim>\<open>t1\<close> only: the result does not contain every added id.
\<close>

theorem add_then_query_counterexample:
  "addRelations postService ''tags'' (Str ''E1'') [Str ''t1'', Str ''t2''] noOpts store0 =
       (Inr e1_tagged, store_tagged)
   \<and> doc_id (dto_doc (Dto 0 e1)) = Str ''E1''
   \<and> q_filter first_page = None
   \<and> fst (queryRelations postService idAssembler ''tags'' (One (Dto 0 e1)) first_page store_tagged) =
       Inr (Single (PMany [tag1]))
   \<and> Str ''t2'' \<notin> doc_id ` set [tag1]"
proof -
  have q: "fst (queryRelations postService idAssembler ''tags'' (One (Dto 0 e1)) first_page store_tagged) =
       Inr (Single (PMany [tag1]))"
    by (simp add: query_tagged first_page_def find_docs_def sort_docs_def assign_ids_def
        buildFilterQuery_def)
  show ?thesis
    using add_run_tagged q by (simp add: first_page_def)
qed

end
